theory Spec2Isabelle
  imports Complex_Main
begin

section \<open>Election simulation for voter satisfaction efficiency (br.py)\<close>

text \<open>
  A shallow embedding of \<^verbatim>\<open>br.py\<close>: voters and their blending, the electorate
  models, the ballot protocol of score voting with its per-voter memo, winner selection
  and the satisfaction measure.

  Utilities are Python floats in the source; here they are real numbers. Blending,
  social utilities and tallies are computed in exact arithmetic. The ballots of Score
  divide by a difference of utilities and round a quotient of doubles down, so what
  they hold depends on the arithmetic of doubles: their operations are the IEEE
  binary64 operations of the subsection on floating-point numbers, and a ballot entry
  is a value of type \<open>fp\<close>, a finite number, an infinity or nan.
  Every exception the source can raise is a value \<open>Inl e\<close> of a sum type.
\<close>

subsection \<open>Exceptions and the random source\<close>

datatype error =
  AssertionError | TypeError | ValueError | ZeroDivisionError | IndexError
  | AttributeError | NameError

text \<open>
  The module draws from Python's global \<^verbatim>\<open>random\<close> generator and keeps one
  process-wide counter (\<^verbatim>\<open>PersonalityVoter.cluster_count\<close>). Both are threaded as a
  \<open>world\<close>: \<open>gauss_src\<close> lists the values successive calls of \<^verbatim>\<open>random.gauss(0,1)\<close>
  return, \<open>raw_src\<close> the raw draws behind \<^verbatim>\<open>randrange\<close> and \<^verbatim>\<open>choice\<close>, which
  reduce a raw draw into the requested range.
\<close>

record world =
  gauss_src :: "nat \<Rightarrow> real"
  raw_src :: "nat \<Rightarrow> nat"
  gauss_n :: nat
  raw_n :: nat
  cluster_count :: int

definition gauss :: "world \<Rightarrow> real \<times> world" where
  "gauss w = (gauss_src w (gauss_n w), w\<lparr>gauss_n := Suc (gauss_n w)\<rparr>)"

definition randrange :: "int \<Rightarrow> world \<Rightarrow> error + (int \<times> world)" where
  "randrange n w =
     (if n \<le> 0 then Inl ValueError
      else Inr (int (raw_src w (raw_n w)) mod n, w\<lparr>raw_n := Suc (raw_n w)\<rparr>))"

definition choice :: "'a list \<Rightarrow> world \<Rightarrow> error + ('a \<times> world)" where
  "choice seq w =
     (if seq = [] then Inl IndexError
      else Inr (seq ! (raw_src w (raw_n w) mod length seq), w\<lparr>raw_n := Suc (raw_n w)\<rparr>))"

subsection \<open>Built-ins: min, max, mean, enumerate, zip\<close>

text \<open>\<^verbatim>\<open>min\<close> and \<^verbatim>\<open>max\<close> of an empty sequence raise ValueError.\<close>

definition py_min :: "real list \<Rightarrow> error + real" where
  "py_min xs = (case xs of [] \<Rightarrow> Inl ValueError | x # r \<Rightarrow> Inr (fold min r x))"

definition py_max :: "real list \<Rightarrow> error + real" where
  "py_max xs = (case xs of [] \<Rightarrow> Inl ValueError | x # r \<Rightarrow> Inr (fold max r x))"

text \<open>
  \<^verbatim>\<open>numpy.mean\<close>. Every call the source makes that is reached has a non-empty
  argument (a column of \<^verbatim>\<open>zip(*rows)\<close>, or a list whose \<^verbatim>\<open>max\<close> was taken first).
\<close>

definition mean :: "real list \<Rightarrow> real" where
  "mean xs = sum_list xs / real (length xs)"

text \<open>\<^verbatim>\<open>zip(*rows)\<close>: the columns, as many as the shortest row has entries.\<close>

fun min_len :: "'a list list \<Rightarrow> nat" where
  "min_len [] = 0"
| "min_len [r] = length r"
| "min_len (r # rs) = min (length r) (min_len rs)"

definition zip_star :: "'a list list \<Rightarrow> 'a list list" where
  "zip_star rows = map (\<lambda>i. map (\<lambda>r. r ! i) rows) [0..<min_len rows]"

subsection \<open>Floating-point numbers\<close>

text \<open>
  IEEE binary64 with the default rounding, to nearest and ties to even. \<open>ulp x\<close> is the
  distance between neighbouring doubles at the magnitude of \<open>x\<close>: \<open>2^-1074\<close> below
  \<open>2^-1021\<close> (the subnormal numbers and the first binade of normal ones), then doubling
  from one binade to the next, found here in eleven steps of sizes \<open>2^1024, ..., 2^1\<close>.
  \<open>fl x\<close> is the multiple of \<open>ulp x\<close> nearest to \<open>x\<close>. Signed zeros are not
  distinguished.
\<close>

definition round_half_even :: "real \<Rightarrow> int" where
  "round_half_even y =
     (let f = \<lfloor>y\<rfloor>; r = y - of_int f
      in if r < 1 / 2 then f else if 1 / 2 < r then f + 1 else if even f then f else f + 1)"

fun ulp_steps :: "nat list \<Rightarrow> real \<Rightarrow> real \<Rightarrow> real" where
  "ulp_steps [] a t = t"
| "ulp_steps (k # ks) a t =
     (if t * 2 ^ (52 + k) \<le> a then ulp_steps ks a (t * 2 ^ k) else ulp_steps ks a t)"

definition ulp :: "real \<Rightarrow> real" where
  "ulp x = ulp_steps [1024, 512, 256, 128, 64, 32, 16, 8, 4, 2, 1] \<bar>x\<bar> (1 / 2 ^ 1074)"

definition fl :: "real \<Rightarrow> real" where
  "fl x = of_int (round_half_even (x / ulp x)) * ulp x"

text \<open>
  The values of a double. A result whose magnitude reaches \<open>2^1024 - 2^970\<close>, half an
  ulp above the largest double, rounds to an infinity.
\<close>

datatype fp = Fin real | PosInf | NegInf | NaN

definition overflow_threshold :: real where
  "overflow_threshold = 2 ^ 1024 - 2 ^ 970"

definition signed_inf :: "bool \<Rightarrow> fp" where
  "signed_inf positive = (if positive then PosInf else NegInf)"

definition fround :: "real \<Rightarrow> fp" where
  "fround x = (if overflow_threshold \<le> \<bar>x\<bar> then signed_inf (0 < x) else Fin (fl x))"

fun fsub :: "fp \<Rightarrow> fp \<Rightarrow> fp" where
  "fsub NaN b = NaN"
| "fsub a NaN = NaN"
| "fsub (Fin x) (Fin y) = fround (x - y)"
| "fsub (Fin x) PosInf = NegInf"
| "fsub (Fin x) NegInf = PosInf"
| "fsub PosInf PosInf = NaN"
| "fsub NegInf NegInf = NaN"
| "fsub PosInf b = PosInf"
| "fsub NegInf b = NegInf"

fun fmul :: "fp \<Rightarrow> fp \<Rightarrow> fp" where
  "fmul NaN b = NaN"
| "fmul a NaN = NaN"
| "fmul (Fin x) (Fin y) = fround (x * y)"
| "fmul (Fin x) PosInf = (if x = 0 then NaN else signed_inf (0 < x))"
| "fmul (Fin x) NegInf = (if x = 0 then NaN else signed_inf (x < 0))"
| "fmul PosInf (Fin y) = (if y = 0 then NaN else signed_inf (0 < y))"
| "fmul NegInf (Fin y) = (if y = 0 then NaN else signed_inf (y < 0))"
| "fmul PosInf PosInf = PosInf"
| "fmul NegInf NegInf = PosInf"
| "fmul PosInf NegInf = NegInf"
| "fmul NegInf PosInf = NegInf"

text \<open>
  The quotient as the hardware gives it, which is what \<^verbatim>\<open>numpy.float64\<close> returns (with
  a warning) also for a zero divisor: \<open>0/0\<close> is nan, \<open>x/0\<close> an infinity.
\<close>

fun fquot :: "fp \<Rightarrow> fp \<Rightarrow> fp" where
  "fquot NaN b = NaN"
| "fquot a NaN = NaN"
| "fquot (Fin x) (Fin y) =
     (if y = 0 then (if x = 0 then NaN else signed_inf (0 < x)) else fround (x / y))"
| "fquot (Fin x) b = Fin 0"
| "fquot PosInf (Fin y) = signed_inf (0 \<le> y)"
| "fquot NegInf (Fin y) = signed_inf (y < 0)"
| "fquot a b = NaN"

text \<open>
  The operator \<^verbatim>\<open>/\<close>. Between Python numbers a zero divisor raises
  ZeroDivisionError; when an operand is a \<^verbatim>\<open>numpy.float64\<close> the division is numpy's.
\<close>

definition fdiv :: "bool \<Rightarrow> fp \<Rightarrow> fp \<Rightarrow> error + fp" where
  "fdiv numpy a b =
     (if b = Fin 0 \<and> \<not> numpy then Inl ZeroDivisionError else Inr (fquot a b))"

text \<open>\<^verbatim>\<open>numpy.ma.core.floor\<close> returns a double: nan and the infinities pass through.\<close>

fun ffloor :: "fp \<Rightarrow> fp" where
  "ffloor (Fin x) = Fin (of_int \<lfloor>x\<rfloor>)"
| "ffloor a = a"

text \<open>
  The comparison \<^verbatim>\<open><\<close>, false whenever an operand is nan. Python's \<^verbatim>\<open>min(a, b)\<close>
  is \<^verbatim>\<open>b\<close> if \<^verbatim>\<open>b < a\<close> and \<^verbatim>\<open>a\<close> otherwise, \<^verbatim>\<open>max(a, b)\<close> is \<^verbatim>\<open>b\<close> if
  \<^verbatim>\<open>b > a\<close> and \<^verbatim>\<open>a\<close> otherwise.
\<close>

fun fp_less :: "fp \<Rightarrow> fp \<Rightarrow> bool" where
  "fp_less NaN b = False"
| "fp_less a NaN = False"
| "fp_less (Fin x) (Fin y) = (x < y)"
| "fp_less (Fin x) PosInf = True"
| "fp_less (Fin x) NegInf = False"
| "fp_less PosInf b = False"
| "fp_less NegInf NegInf = False"
| "fp_less NegInf b = True"

definition py_min2 :: "fp \<Rightarrow> fp \<Rightarrow> fp" where
  "py_min2 a b = (if fp_less b a then b else a)"

definition py_max2 :: "fp \<Rightarrow> fp \<Rightarrow> fp" where
  "py_max2 a b = (if fp_less a b then b else a)"

subsection \<open>Voter and PersonalityVoter\<close>

datatype vType = Voter | PersonalityVoter

text \<open>
  A voter is a tuple of utilities together with the attributes the program attaches to
  the object: the memoized ballots (\<^verbatim>\<open><Method>_hon\<close>, \<^verbatim>\<open><Method>_strat\<close>), the flag
  \<^verbatim>\<open><Method>_isStrat\<close>, and for a PersonalityVoter \<^verbatim>\<open>cluster\<close> and
  \<^verbatim>\<open>personality\<close>. An attribute that was never set is \<open>None\<close>.

  The utilities of one voter are Python numbers (what \<^verbatim>\<open>random.gauss\<close> and the
  literals of the examples are) or \<^verbatim>\<open>numpy.float64\<close> values (what a quotient by
  numpy's \<^verbatim>\<open>sqrt\<close> is); \<open>np\<close> tells which, because the two kinds divide by zero
  differently.
\<close>

record voter =
  utils :: "real list"
  np :: bool
  cls :: vType
  ballots :: "string \<rightharpoonup> fp list"
  flags :: "string \<rightharpoonup> bool"
  cluster :: "int option"
  personality :: "real option"

text \<open>
  The constructor call \<^verbatim>\<open>cls(utils)\<close> on Python numbers: a fresh object without
  attributes.
\<close>

definition new_voter :: "vType \<Rightarrow> real list \<Rightarrow> voter" where
  "new_voter c us =
     \<lparr>utils = us, np = False, cls = c, ballots = Map.empty, flags = Map.empty,
      cluster = None, personality = None\<rparr>"

fun gauss_list :: "nat \<Rightarrow> world \<Rightarrow> real list \<times> world" where
  "gauss_list 0 w = ([], w)"
| "gauss_list (Suc n) w =
     (case gauss w of (x, w1) \<Rightarrow>
        (case gauss_list n w1 of (xs, w2) \<Rightarrow> (x # xs, w2)))"

text \<open>\<^verbatim>\<open>Voter.rand\<close>: \<^verbatim>\<open>range(ncand)\<close> is empty for a negative \<^verbatim>\<open>ncand\<close>.\<close>

definition Voter_rand :: "vType \<Rightarrow> int \<Rightarrow> world \<Rightarrow> voter \<times> world" where
  "Voter_rand c ncand w =
     (case gauss_list (nat ncand) w of (us, w1) \<Rightarrow> (new_voter c us, w1))"

definition PersonalityVoter_rand :: "vType \<Rightarrow> int \<Rightarrow> world \<Rightarrow> voter \<times> world" where
  "PersonalityVoter_rand c ncand w =
     (case Voter_rand c ncand w of (v, w1) \<Rightarrow>
        (let v1 = v\<lparr>cluster := Some (cluster_count w1)\<rparr>;
             w2 = w1\<lparr>cluster_count := cluster_count w1 + 1\<rparr>
         in case gauss w2 of (p, w3) \<Rightarrow> (v1\<lparr>personality := Some p\<rparr>, w3)))"

fun rand :: "vType \<Rightarrow> int \<Rightarrow> world \<Rightarrow> voter \<times> world" where
  "rand Voter ncand w = Voter_rand Voter ncand w"
| "rand PersonalityVoter ncand w = PersonalityVoter_rand PersonalityVoter ncand w"

text \<open>
  \<^verbatim>\<open>Voter.copyWithUtils(self, utils)\<close> is \<^verbatim>\<open>self.__class__(utils)\<close>.
\<close>

definition Voter_copyWithUtils :: "voter \<Rightarrow> real list \<Rightarrow> voter" where
  "Voter_copyWithUtils self us = new_voter (cls self) us"

text \<open>
  \<^verbatim>\<open>PersonalityVoter.copyWithUtils\<close> calls \<^verbatim>\<open>super().copyWithUtils(self, utils)\<close>.
  The attribute lookup on \<^verbatim>\<open>super()\<close> already binds \<^verbatim>\<open>self\<close>, so the call hands the
  two-parameter function three positional arguments and Python raises TypeError before
  the body runs. \<open>super_copyWithUtils\<close> is the bound method applied to the arguments
  written at the call site.
\<close>

datatype arg = ArgVoter voter | ArgUtils "real list"

definition super_copyWithUtils :: "voter \<Rightarrow> arg list \<Rightarrow> error + voter" where
  "super_copyWithUtils self args =
     (case args of
        [ArgUtils us] \<Rightarrow> Inr (Voter_copyWithUtils self us)
      | _ \<Rightarrow> Inl TypeError)"

definition PersonalityVoter_copyWithUtils :: "voter \<Rightarrow> real list \<Rightarrow> error + voter" where
  "PersonalityVoter_copyWithUtils self us =
     (case super_copyWithUtils self [ArgVoter self, ArgUtils us] of
        Inl e \<Rightarrow> Inl e
      | Inr v \<Rightarrow>
          (case personality self of
             None \<Rightarrow> Inl AttributeError
           | Some p \<Rightarrow>
               (case cluster self of
                  None \<Rightarrow> Inl AttributeError
                | Some c \<Rightarrow> Inr (v\<lparr>personality := Some p, cluster := Some c\<rparr>))))"

definition copyWithUtils :: "voter \<Rightarrow> real list \<Rightarrow> error + voter" where
  "copyWithUtils self us =
     (case cls self of
        Voter \<Rightarrow> Inr (Voter_copyWithUtils self us)
      | PersonalityVoter \<Rightarrow> PersonalityVoter_copyWithUtils self us)"

text \<open>
  \<^verbatim>\<open>
  assert len(self) == len(v2)
  return self.copyWithUtils(((self[i] / sqrt(1 + w2 ** 2)) +
                             (w2 * v2[i] / sqrt(1 + w2 ** 2)))
                            for i in range(len(self)))
  \<close>
  \<^verbatim>\<open>sqrt\<close> is numpy's, so the utilities handed to \<^verbatim>\<open>copyWithUtils\<close> are
  \<^verbatim>\<open>numpy.float64\<close> values whatever the operands were.
\<close>

definition hybridWith :: "voter \<Rightarrow> voter \<Rightarrow> real \<Rightarrow> error + voter" where
  "hybridWith self v2 w2 =
     (if length (utils self) \<noteq> length (utils v2) then Inl AssertionError
      else (case copyWithUtils self
                   (map (\<lambda>i. (utils self ! i / sqrt (1 + w2 ^ 2)) +
                             (w2 * utils v2 ! i / sqrt (1 + w2 ^ 2)))
                        [0..<length (utils self)]) of
              Inl e \<Rightarrow> Inl e
            | Inr v \<Rightarrow> Inr (v\<lparr>np := True\<rparr>)))"

definition mutantChild :: "voter \<Rightarrow> real \<Rightarrow> world \<Rightarrow> error + (voter \<times> world)" where
  "mutantChild self muteWeight w =
     (case rand (cls self) (int (length (utils self))) w of (r, w1) \<Rightarrow>
        (case hybridWith self r muteWeight of
           Inl e \<Rightarrow> Inl e
         | Inr child \<Rightarrow> Inr (child, w1)))"

subsection \<open>Electorate and the electorate models\<close>

text \<open>
  An Electorate is a list of voters. \<^verbatim>\<open>socUtils\<close> is
  \<^verbatim>\<open>list(map(mean, zip(*self)))\<close>.
\<close>

text \<open>
  Modelled from the spec: the decorators \<^verbatim>\<open>cached_property\<close> and \<^verbatim>\<open>autoassign\<close>
  come from the module \<^verbatim>\<open>mydecorators\<close>, which is not among the sources. The social
  utility vector is lazily computed and cached, so \<open>socUtils\<close> is the value of the
  decorated function; the constructors of QModel and PolyaModel store their arguments
  under the parameters' names, which are the fields \<^verbatim>\<open>__call__\<close> reads.
\<close>

definition socUtils :: "voter list \<Rightarrow> real list" where
  "socUtils electorate = map mean (zip_star (map utils electorate))"

text \<open>
  The model classes with their constructor arguments: \<^verbatim>\<open>QModel(qWeight, baseModel)\<close>
  and \<^verbatim>\<open>PolyaModel(seedVoters, alpha, seedModel, mutantFactor)\<close>.
\<close>

datatype model =
  RandomModel
  | ReverseModel
  | QModel real model
  | PolyaModel int int model real

fun rand_list :: "nat \<Rightarrow> vType \<Rightarrow> int \<Rightarrow> world \<Rightarrow> voter list \<times> world" where
  "rand_list 0 vt ncand w = ([], w)"
| "rand_list (Suc n) vt ncand w =
     (case rand vt ncand w of (v, w1) \<Rightarrow>
        (case rand_list n vt ncand w1 of (vs, w2) \<Rightarrow> (v # vs, w2)))"

definition RandomModel_call ::
  "int \<Rightarrow> int \<Rightarrow> vType \<Rightarrow> world \<Rightarrow> error + (voter list \<times> world)" where
  "RandomModel_call nvot ncand vt w = Inr (rand_list (nat nvot) vt ncand w)"

text \<open>
  \<^verbatim>\<open>[basevoter] * (nvot//2)\<close> repeats one reference; the model repeats the value.
  A non-positive repetition count gives the empty list.
\<close>

definition ReverseModel_call ::
  "int \<Rightarrow> int \<Rightarrow> vType \<Rightarrow> world \<Rightarrow> error + (voter list \<times> world)" where
  "ReverseModel_call nvot ncand vt w =
     (if nvot mod 2 \<noteq> 0 then Inl ValueError
      else (case rand vt ncand w of (basevoter, w1) \<Rightarrow>
              Inr (replicate (nat (nvot div 2)) basevoter @
                   replicate (nat (nvot div 2))
                     (new_voter vt (map (\<lambda>q. - q) (utils basevoter))),
                   w1)))"

fun hybrid_all :: "voter list \<Rightarrow> voter \<Rightarrow> real \<Rightarrow> error + voter list" where
  "hybrid_all [] q qw = Inr []"
| "hybrid_all (v # vs) q qw =
     (case hybridWith v q qw of
        Inl e \<Rightarrow> Inl e
      | Inr h \<Rightarrow> (case hybrid_all vs q qw of Inl e \<Rightarrow> Inl e | Inr hs \<Rightarrow> Inr (h # hs)))"

text \<open>
  The loop of \<^verbatim>\<open>PolyaModel.__call__\<close>:
  \<^verbatim>\<open>
  while len(election) < nvot:
      i = random.randrange(len(election) + self.alpha)
      if i < len(election):
          election.append(election[i].mutantChild(self.mutantFactor))
      else:
          election.append(vType.rand(ncand))
  return election
  \<close>
\<close>

function polya_loop ::
  "int \<Rightarrow> real \<Rightarrow> int \<Rightarrow> int \<Rightarrow> vType \<Rightarrow> voter list \<Rightarrow> world \<Rightarrow> error + (voter list \<times> world)"
  where
  "polya_loop alpha mutantFactor nvot ncand vt election w =
     (if int (length election) < nvot then
        (case randrange (int (length election) + alpha) w of
           Inl e \<Rightarrow> Inl e
         | Inr (i, w1) \<Rightarrow>
             if i < int (length election) then
               (case mutantChild (election ! nat i) mutantFactor w1 of
                  Inl e \<Rightarrow> Inl e
                | Inr (child, w2) \<Rightarrow>
                    polya_loop alpha mutantFactor nvot ncand vt (election @ [child]) w2)
             else
               (case rand vt ncand w1 of (v, w2) \<Rightarrow>
                  polya_loop alpha mutantFactor nvot ncand vt (election @ [v]) w2))
      else Inr (election, w))"
  by pat_completeness auto
termination
  by (relation "measure (\<lambda>(alpha, mf, nvot, ncand, vt, election, w).
                  nat (nvot - int (length election)))") auto

text \<open>
  \<^verbatim>\<open>__call__\<close> of each model. QModel draws the quality voter before it calls its base
  model; PolyaModel seeds the urn with \<^verbatim>\<open>seedModel(seedVoters, ncand, vType)\<close>.
\<close>

fun model_call ::
  "model \<Rightarrow> int \<Rightarrow> int \<Rightarrow> vType \<Rightarrow> world \<Rightarrow> error + (voter list \<times> world)" where
  "model_call RandomModel nvot ncand vt w = RandomModel_call nvot ncand vt w"
| "model_call ReverseModel nvot ncand vt w = ReverseModel_call nvot ncand vt w"
| "model_call (QModel qWeight baseModel) nvot ncand vt w =
     (case rand vt ncand w of (qualities, w1) \<Rightarrow>
        (case model_call baseModel nvot ncand vt w1 of
           Inl e \<Rightarrow> Inl e
         | Inr (base, w2) \<Rightarrow>
             (case hybrid_all base qualities qWeight of
                Inl e \<Rightarrow> Inl e
              | Inr el \<Rightarrow> Inr (el, w2))))"
| "model_call (PolyaModel seedVoters alpha seedModel mutantFactor) nvot ncand vt w =
     (case model_call seedModel seedVoters ncand vt w of
        Inl e \<Rightarrow> Inl e
      | Inr (election, w1) \<Rightarrow> polya_loop alpha mutantFactor nvot ncand vt election w1)"

subsection \<open>Method: results and winner\<close>

type_synonym ballot = "fp list"

text \<open>
  \<^verbatim>\<open>Score.candScore\<close> is \<^verbatim>\<open>mean\<close>, here the exact mean of finite scores. One nan
  among the scores, or infinities of both signs, make the mean nan; infinities of one
  sign make it that infinity.
\<close>

fun fin_value :: "fp \<Rightarrow> real" where
  "fin_value (Fin x) = x"
| "fin_value a = 0"

definition Score_candScore :: "fp list \<Rightarrow> fp" where
  "Score_candScore scores =
     (if NaN \<in> set scores \<or> (PosInf \<in> set scores \<and> NegInf \<in> set scores) then NaN
      else if PosInf \<in> set scores then PosInf
      else if NegInf \<in> set scores then NegInf
      else Fin (mean (map fin_value scores)))"

definition results :: "ballot list \<Rightarrow> fp list" where
  "results bs = map Score_candScore (zip_star bs)"

text \<open>
  \<^verbatim>\<open>
  winScore = max(results)
  winners = [cand for (cand, score) in enumerate(results) if score==winScore]
  return random.choice(winners)
  \<close>
\<close>

definition winners :: "real list \<Rightarrow> real \<Rightarrow> nat list" where
  "winners res winScore =
     map fst (filter (\<lambda>(cand, score). score = winScore) (enumerate 0 res))"

definition winner :: "real list \<Rightarrow> world \<Rightarrow> error + (nat \<times> world)" where
  "winner res w =
     (case py_max res of
        Inl e \<Rightarrow> Inl e
      | Inr winScore \<Rightarrow> choice (winners res winScore) w)"

subsection \<open>The ballot memo\<close>

text \<open>
  \<^verbatim>\<open>rememberBallot(fun)\<close> wraps a ballot function: the ballot is stored on the voter
  under \<^verbatim>\<open>cls.__name__ + "_" + fun.__name__[:-6]\<close>. The class is passed by its name.
\<close>

definition rememberBallot ::
  "string \<Rightarrow> (string \<Rightarrow> voter \<Rightarrow> error + (ballot \<times> voter)) \<Rightarrow>
   string \<Rightarrow> voter \<Rightarrow> error + (ballot \<times> voter)" where
  "rememberBallot fun_name f cname v =
     (case f cname v of
        Inl e \<Rightarrow> Inl e
      | Inr (b, v1) \<Rightarrow>
          Inr (b, v1\<lparr>ballots :=
                 (ballots v1)(cname @ ''_'' @ take (length fun_name - 6) fun_name \<mapsto> b)\<rparr>))"

definition getattr :: "(string \<rightharpoonup> 'a) \<Rightarrow> string \<Rightarrow> error + 'a" where
  "getattr m name = (case m name of None \<Rightarrow> Inl AttributeError | Some x \<Rightarrow> Inr x)"

text \<open>
  \<^verbatim>\<open>
  cname = cls.__name__
  if getattr(voter, cname + "_isStrat", False):
      res = getattr(voter, cname + "_strat")
  else:
      res = getattr(voter, cname + "_hon")
  return res
  \<close>
\<close>

definition ossBallot :: "string \<Rightarrow> voter \<Rightarrow> error + ballot" where
  "ossBallot cname v =
     (if (case flags v (cname @ ''_isStrat'') of None \<Rightarrow> False | Some b \<Rightarrow> b)
      then getattr (ballots v) (cname @ ''_strat'')
      else getattr (ballots v) (cname @ ''_hon''))"

subsection \<open>Score voting\<close>

text \<open>
  \<^verbatim>\<open>
  bot = min(utils)
  scale = max(utils)-bot
  return [floor(10.99 * (util-bot) / scale) for util in utils]
  \<close>
  The argument named \<^verbatim>\<open>utils\<close> is the voter. Each entry is computed in doubles,
  in the order the expression is written: the constant \<^verbatim>\<open>10.99\<close> is the double
  nearest to it, the subtraction, the product and the quotient are rounded one after the
  other. \<open>honEntries\<close> is the list comprehension, which stops at the first entry that
  raises.
\<close>

definition honEntry :: "bool \<Rightarrow> real \<Rightarrow> fp \<Rightarrow> real \<Rightarrow> error + fp" where
  "honEntry numpy bot' scale util =
     (case fdiv numpy (fmul (fround 10.99) (fsub (Fin util) (Fin bot'))) scale of
        Inl e \<Rightarrow> Inl e
      | Inr q \<Rightarrow> Inr (ffloor q))"

fun honEntries :: "bool \<Rightarrow> real \<Rightarrow> fp \<Rightarrow> real list \<Rightarrow> error + fp list" where
  "honEntries numpy bot' scale [] = Inr []"
| "honEntries numpy bot' scale (util # rest) =
     (case honEntry numpy bot' scale util of
        Inl e \<Rightarrow> Inl e
      | Inr x \<Rightarrow>
          (case honEntries numpy bot' scale rest of
             Inl e \<Rightarrow> Inl e
           | Inr xs \<Rightarrow> Inr (x # xs)))"

definition honBallot :: "string \<Rightarrow> voter \<Rightarrow> error + (ballot \<times> voter)" where
  "honBallot cname v =
     (case py_min (utils v) of
        Inl e \<Rightarrow> Inl e
      | Inr bot' \<Rightarrow>
          (case py_max (utils v) of
             Inl e \<Rightarrow> Inl e
           | Inr top' \<Rightarrow>
               (let scale = fsub (Fin top') (Fin bot') in
                case honEntries (np v) bot' scale (utils v) of
                  Inl e \<Rightarrow> Inl e
                | Inr b \<Rightarrow> Inr (b, v))))"

definition Score_honBallot :: "string \<Rightarrow> voter \<Rightarrow> error + (ballot \<times> voter)" where
  "Score_honBallot = rememberBallot ''honBallot'' honBallot"

text \<open>
  \<^verbatim>\<open>
  places = sorted(enumerate(info),key=lambda x:x[0]) #from high to low
  frontrunners = places[0][0], places[1][0]
  \<close>
  \<^verbatim>\<open>sorted\<close> is stable, as \<open>sort_key\<close> is. Mav keeps the two scores as well. The
  scores themselves are not looked at, so these functions take a poll of any type.
\<close>

definition places :: "'a list \<Rightarrow> (nat \<times> 'a) list" where
  "places info = sort_key (\<lambda>x. fst x) (enumerate 0 info)"

definition frontrunners :: "'a list \<Rightarrow> error + (nat \<times> nat)" where
  "frontrunners info =
     (if length (places info) < 2 then Inl IndexError
      else Inr (fst (places info ! 0), fst (places info ! 1)))"

definition Mav_frontrunners :: "'a list \<Rightarrow> error + (nat \<times> nat \<times> 'a \<times> 'a)" where
  "Mav_frontrunners info =
     (if length (places info) < 2 then Inl IndexError
      else Inr (fst (places info ! 0), fst (places info ! 1),
                snd (places info ! 0), snd (places info ! 1)))"

definition getitem :: "real list \<Rightarrow> nat \<Rightarrow> error + real" where
  "getitem xs i = (if i < length xs then Inr (xs ! i) else Inl IndexError)"

text \<open>
  \<^verbatim>\<open>
  cuts = [voter[front[0]], voter[front[1]]]
  if cuts[0] == cuts[1]:
      return [(10 if (util >= cuts[0]) else 0) for util in voter]
  else:
      if cuts[0] > cuts[1]:
          strat = False
      else:
          strat = True
          cuts = (cuts[1], cuts[0])
      setattr(voter, cls.__name__ + "_isStrat", strat)
      return [max(0,min(10,floor(10.99 * (util-cuts[1]) / (cuts[0]-cuts[1]))))
              for util in voter]
  \<close>
  The flag is set before the ballot is built. The entries are computed in doubles as
  those of the honest ballot are, and clamped by \<^verbatim>\<open>min\<close> and \<^verbatim>\<open>max\<close>.
\<close>

definition stratEntry :: "bool \<Rightarrow> real \<Rightarrow> real \<Rightarrow> real \<Rightarrow> error + fp" where
  "stratEntry numpy cut0 cut1 util =
     (case fdiv numpy (fmul (fround 10.99) (fsub (Fin util) (Fin cut1)))
             (fsub (Fin cut0) (Fin cut1)) of
        Inl e \<Rightarrow> Inl e
      | Inr q \<Rightarrow> Inr (py_max2 (Fin 0) (py_min2 (Fin 10) (ffloor q))))"

fun stratEntries :: "bool \<Rightarrow> real \<Rightarrow> real \<Rightarrow> real list \<Rightarrow> error + fp list" where
  "stratEntries numpy cut0 cut1 [] = Inr []"
| "stratEntries numpy cut0 cut1 (util # rest) =
     (case stratEntry numpy cut0 cut1 util of
        Inl e \<Rightarrow> Inl e
      | Inr x \<Rightarrow>
          (case stratEntries numpy cut0 cut1 rest of
             Inl e \<Rightarrow> Inl e
           | Inr xs \<Rightarrow> Inr (x # xs)))"

definition stratBallot :: "nat \<times> nat \<Rightarrow> string \<Rightarrow> voter \<Rightarrow> error + (ballot \<times> voter)" where
  "stratBallot front cname v =
     (case getitem (utils v) (fst front) of
        Inl e \<Rightarrow> Inl e
      | Inr c0 \<Rightarrow>
          (case getitem (utils v) (snd front) of
             Inl e \<Rightarrow> Inl e
           | Inr c1 \<Rightarrow>
               if c0 = c1 then
                 Inr (map (\<lambda>util. if util \<ge> c0 then Fin 10 else Fin 0) (utils v), v)
               else
                 (let strat = \<not> (c0 > c1);
                      cuts = (if c0 > c1 then (c0, c1) else (c1, c0));
                      v1 = v\<lparr>flags := (flags v)(cname @ ''_isStrat'' \<mapsto> strat)\<rparr>
                  in case stratEntries (np v) (fst cuts) (snd cuts) (utils v) of
                       Inl e \<Rightarrow> Inl e
                     | Inr b \<Rightarrow> Inr (b, v1))))"

definition Score_stratBallotFor ::
  "fp list \<Rightarrow> error + (string \<Rightarrow> voter \<Rightarrow> error + (ballot \<times> voter))" where
  "Score_stratBallotFor info =
     (case frontrunners info of
        Inl e \<Rightarrow> Inl e
      | Inr front \<Rightarrow> Inr (rememberBallot ''stratBallot'' (stratBallot front)))"

definition Score_ossBallot :: "string \<Rightarrow> voter \<Rightarrow> error + (ballot \<times> voter)" where
  "Score_ossBallot cname v =
     (case ossBallot cname v of Inl e \<Rightarrow> Inl e | Inr b \<Rightarrow> Inr (b, v))"

subsection \<open>The pipeline: resultsFor, multiResults, vseOn\<close>

text \<open>
  \<^verbatim>\<open>resultsFor\<close> makes one ballot per voter, in order; each call may attach
  attributes to its voter, so the electorate is returned with the ballots.
\<close>

fun make_ballots ::
  "(voter \<Rightarrow> error + (ballot \<times> voter)) \<Rightarrow> voter list \<Rightarrow> error + (ballot list \<times> voter list)"
  where
  "make_ballots mk [] = Inr ([], [])"
| "make_ballots mk (v # vs) =
     (case mk v of
        Inl e \<Rightarrow> Inl e
      | Inr (b, v1) \<Rightarrow>
          (case make_ballots mk vs of
             Inl e \<Rightarrow> Inl e
           | Inr (bs, vs1) \<Rightarrow> Inr (b # bs, v1 # vs1)))"

definition resultsFor ::
  "string \<Rightarrow> voter list \<Rightarrow> (string \<Rightarrow> voter \<Rightarrow> error + (ballot \<times> voter)) \<Rightarrow>
   error + (fp list \<times> voter list)" where
  "resultsFor cname voters makeBallot =
     (case make_ballots (makeBallot cname) voters of
        Inl e \<Rightarrow> Inl e
      | Inr (bs, vs1) \<Rightarrow> Inr (results bs, vs1))"

definition multiResults ::
  "string \<Rightarrow> voter list \<Rightarrow> (fp list \<Rightarrow> fp list) \<Rightarrow>
   error + ((fp list \<times> fp list \<times> fp list) \<times> voter list)" where
  "multiResults cname voters media =
     (case resultsFor cname voters Score_honBallot of
        Inl e \<Rightarrow> Inl e
      | Inr (hon, vs1) \<Rightarrow>
          (case Score_stratBallotFor (media hon) of
             Inl e \<Rightarrow> Inl e
           | Inr mk \<Rightarrow>
               (case resultsFor cname vs1 mk of
                  Inl e \<Rightarrow> Inl e
                | Inr (strat, vs2) \<Rightarrow>
                    (case resultsFor cname vs2 Score_ossBallot of
                       Inl e \<Rightarrow> Inl e
                     | Inr (oss, vs3) \<Rightarrow> Inr ((hon, strat, oss), vs3)))))"

text \<open>
  \<^verbatim>\<open>
  multiResults = self.multiResults(voters)
  utils = voters.socUtils
  best = max(utils)
  rand = mean(utils)
  return (((utils[self.winner(result)] - rand) / (best - rand))
          for result in results) + (self.__class__.__name__,)
  \<close>
  The iterable of a generator expression is evaluated at once, in the scope of
  \<^verbatim>\<open>vseOn\<close>: the name \<^verbatim>\<open>results\<close> is looked up among the locals of the function
  and the names of the module. With the name bound, the generator (whose body has not
  run) and a tuple would be added, which Python refuses with TypeError.
\<close>

definition vseOn_locals :: "string list" where
  "vseOn_locals = [''self'', ''voters'', ''multiResults'', ''utils'', ''best'', ''rand'']"

definition module_names :: "string list" where
  "module_names =
     [''autoassign'', ''cached_property'', ''curried'', ''random'', ''sqrt'', ''mean'',
      ''std'', ''median'', ''floor'', ''Voter'', ''PersonalityVoter'', ''Electorate'',
      ''RandomModel'', ''ReverseModel'', ''QModel'', ''PolyaModel'', ''Method'',
      ''rememberBallot'', ''Score'', ''toVote'', ''Mav'', ''Mj'', ''Bucklin'', ''doVse'',
      ''printVse'', ''saveResults'']"

definition vseOn :: "string \<Rightarrow> voter list \<Rightarrow> error + (real list \<times> string)" where
  "vseOn cname voters =
     (case multiResults cname voters (\<lambda>x. x) of
        Inl e \<Rightarrow> Inl e
      | Inr (multi, vs) \<Rightarrow>
          (let utils = socUtils vs in
           case py_max utils of
             Inl e \<Rightarrow> Inl e
           | Inr best \<Rightarrow>
               (let rand = mean utils in
                if ''results'' \<in> set (vseOn_locals @ module_names)
                then Inl TypeError
                else Inl NameError)))"

subsection \<open>The frontrunners as the specification words them\<close>

text \<open>
  For comparison with \<open>frontrunners\<close>: the candidate with the maximum poll score and the
  candidate with the second-highest poll score, in that order.
\<close>

definition spec_frontrunners :: "real list \<Rightarrow> error + (nat \<times> nat)" where
  "spec_frontrunners info =
     (let byScore = sort_key (\<lambda>x. - snd x) (enumerate 0 info)
      in if length byScore < 2 then Inl IndexError
         else Inr (fst (byScore ! 0), fst (byScore ! 1)))"

subsection \<open>A world for examples\<close>

text \<open>Every Gaussian draw is \<open>g\<close> and every raw draw is \<open>k\<close>; nothing has been drawn yet.\<close>

definition const_world :: "real \<Rightarrow> nat \<Rightarrow> world" where
  "const_world g k =
     \<lparr>gauss_src = (\<lambda>_. g), raw_src = (\<lambda>_. k), gauss_n = 0, raw_n = 0, cluster_count = 0\<rparr>"

section \<open>Properties\<close>

subsection \<open>Rounding\<close>

text \<open>
  The spacing \<open>ulp x\<close> is a power of two, at most \<open>\<bar>x\<bar> / 2^52\<close> unless it is the
  smallest spacing \<open>2^-1074\<close>, and more than \<open>\<bar>x\<bar> / 2^53\<close> for every \<open>x\<close> within the
  doubles: the spacing of the binade of \<open>x\<close>.
\<close>

lemma round_half_even_err: "\<bar>of_int (round_half_even y) - y\<bar> \<le> 1 / 2"
  unfolding round_half_even_def Let_def by (auto; linarith)

lemma round_half_even_nonneg: "0 \<le> y \<Longrightarrow> 0 \<le> round_half_even y"
  unfolding round_half_even_def Let_def by (auto; linarith)

lemma ulp_steps_pos: "0 < t \<Longrightarrow> 0 < ulp_steps ks a t"
  by (induction ks arbitrary: t) simp_all

lemma ulp_steps_lower:
  "t = c \<or> t * 2 ^ 52 \<le> a \<Longrightarrow> ulp_steps ks a t = c \<or> ulp_steps ks a t * 2 ^ 52 \<le> a"
proof (induction ks arbitrary: t)
  case Nil
  then show ?case by simp
next
  case (Cons k ks)
  show ?case
  proof (cases "t * 2 ^ (52 + k) \<le> a")
    case True
    then have "t * 2 ^ k * 2 ^ 52 \<le> a" by (simp add: power_add mult.assoc mult.commute)
    then have "ulp_steps ks a (t * 2 ^ k) = c \<or> ulp_steps ks a (t * 2 ^ k) * 2 ^ 52 \<le> a"
      by (intro Cons.IH) simp
    with True show ?thesis by simp
  next
    case False
    with Cons.IH [OF Cons.prems] show ?thesis by simp
  qed
qed

lemma ulp_pos: "0 < ulp x"
  unfolding ulp_def by (rule ulp_steps_pos) simp

lemma ulp_half_le: "ulp x / 2 \<le> \<bar>x\<bar> / 2 ^ 53 + 1 / 2 ^ 1075"
proof -
  have "ulp x = 1 / 2 ^ 1074 \<or> ulp x * 2 ^ 52 \<le> \<bar>x\<bar>"
    unfolding ulp_def by (rule ulp_steps_lower) simp
  then show ?thesis
  proof
    assume "ulp x = 1 / 2 ^ 1074"
    then have "ulp x / 2 = 1 / 2 ^ 1075" by simp
    then show ?thesis by simp
  next
    assume "ulp x * 2 ^ 52 \<le> \<bar>x\<bar>"
    then have "ulp x / 2 \<le> \<bar>x\<bar> / 2 ^ 53" by simp
    then show ?thesis by simp
  qed
qed

lemma fl_err: "\<bar>fl x - x\<bar> \<le> \<bar>x\<bar> / 2 ^ 53 + 1 / 2 ^ 1075"
proof -
  let ?u = "ulp x"
  have up: "0 < ?u" by (rule ulp_pos)
  have "fl x - x = (of_int (round_half_even (x / ?u)) - x / ?u) * ?u"
    using up by (simp add: fl_def field_simps)
  then have "\<bar>fl x - x\<bar> = \<bar>of_int (round_half_even (x / ?u)) - x / ?u\<bar> * ?u"
    using up by (simp add: abs_mult)
  also have "\<dots> \<le> 1 / 2 * ?u"
    using round_half_even_err [of "x / ?u"] up by (simp add: mult_right_mono)
  also have "\<dots> \<le> \<bar>x\<bar> / 2 ^ 53 + 1 / 2 ^ 1075"
    using ulp_half_le [of x] by simp
  finally show ?thesis .
qed

lemma fl_nonneg: "0 \<le> x \<Longrightarrow> 0 \<le> fl x"
  using round_half_even_nonneg [of "x / ulp x"] ulp_pos [of x]
  by (simp add: fl_def)

lemma fl_0: "fl 0 = 0"
  by (simp add: fl_def round_half_even_def)

lemma fl_bounds:
  assumes "0 \<le> z"
  shows "z - z / 1000000 - 1 / 2 ^ 1075 \<le> fl z" and "fl z \<le> z + z / 1000000 + 1 / 2 ^ 1075"
proof -
  have "z / 2 ^ 53 \<le> z / 1000000" using assms by (intro divide_left_mono) simp_all
  moreover have "\<bar>fl z - z\<bar> \<le> z / 2 ^ 53 + 1 / 2 ^ 1075" using fl_err [of z] assms by simp
  ultimately have "\<bar>fl z - z\<bar> \<le> z / 1000000 + 1 / 2 ^ 1075" by linarith
  then show "z - z / 1000000 - 1 / 2 ^ 1075 \<le> fl z" and "fl z \<le> z + z / 1000000 + 1 / 2 ^ 1075"
    by linarith+
qed

lemma ulp_steps_upper:
  "a < t * 2 ^ (52 + 2 ^ n) \<Longrightarrow>
   a < ulp_steps (map (\<lambda>i. 2 ^ i) (rev [0..<n])) a t * 2 ^ 53"
proof (induction n arbitrary: t)
  case 0
  then show ?case by simp
next
  case (Suc n)
  show ?case
  proof (cases "t * 2 ^ (52 + 2 ^ n) \<le> a")
    case True
    have e: "52 + (2::nat) ^ Suc n = 2 ^ n + (52 + 2 ^ n)" by simp
    have "t * 2 ^ (52 + 2 ^ Suc n) = t * 2 ^ 2 ^ n * 2 ^ (52 + 2 ^ n)"
      by (simp only: e power_add mult.assoc)
    with Suc.prems have "a < t * 2 ^ 2 ^ n * 2 ^ (52 + 2 ^ n)" by (simp only:)
    then have "a < ulp_steps (map (\<lambda>i. 2 ^ i) (rev [0..<n])) a (t * 2 ^ 2 ^ n) * 2 ^ 53"
      by (rule Suc.IH)
    with True show ?thesis by simp
  next
    case False
    then have "a < ulp_steps (map (\<lambda>i. 2 ^ i) (rev [0..<n])) a t * 2 ^ 53"
      by (intro Suc.IH) simp
    with False show ?thesis by simp
  qed
qed

lemma ulp_upper:
  assumes "\<bar>x\<bar> < 2 ^ 1024"
  shows "\<bar>x\<bar> < ulp x * 2 ^ 53"
proof -
  have ks: "[1024, 512, 256, 128, 64, 32, 16, 8, 4, 2, 1 :: nat] =
      map (\<lambda>i. 2 ^ i) (rev [0..<11])"
    by (simp add: upt_rec)
  have "(2::real) ^ 1024 \<le> 1 / 2 ^ 1074 * 2 ^ (52 + 2 ^ 11)" by simp
  with assms have "\<bar>x\<bar> < 1 / 2 ^ 1074 * 2 ^ (52 + 2 ^ 11)" by (rule less_le_trans)
  then show ?thesis unfolding ulp_def ks by (rule ulp_steps_upper)
qed

lemma ulp_steps_power:
  "\<exists>j. t = 2 ^ j / 2 ^ 1074 \<Longrightarrow> \<exists>j. ulp_steps ks a t = 2 ^ j / 2 ^ 1074"
proof (induction ks arbitrary: t)
  case Nil
  then show ?case by simp
next
  case (Cons k ks)
  from Cons.prems obtain j :: nat where "t = 2 ^ j / 2 ^ 1074" by blast
  then have "t * 2 ^ k = 2 ^ (j + k) / 2 ^ 1074" by (simp add: power_add)
  then have "\<exists>j. t * 2 ^ k = 2 ^ j / 2 ^ 1074" by blast
  from Cons.IH [OF this] Cons.IH [OF Cons.prems] show ?case by simp
qed

lemma ulp_power: "\<exists>j. ulp x = 2 ^ j / 2 ^ 1074"
  unfolding ulp_def by (rule ulp_steps_power) (rule exI [of _ 0], simp)

lemma fl_1: "fl 1 = 1"
  by (simp add: fl_def ulp_def round_half_even_def)

lemma fl_1099: "fl (1099 / 100) = 6186819988100219 / 562949953421312"
  by (simp add: fl_def ulp_def round_half_even_def Let_def)

lemma fround_Fin: "\<bar>x\<bar> < overflow_threshold \<Longrightarrow> fround x = Fin (fl x)"
  by (simp add: fround_def)

lemma honEntry_bounds:
  assumes mu: "m \<le> u" and uM: "u \<le> M"
    and lo: "1 / 2 ^ 1021 \<le> M - m" and hi: "M - m \<le> 2 ^ 1020"
  shows "\<exists>q. honEntry numpy m (fsub (Fin M) (Fin m)) u = Inr (Fin (of_int q)) \<and>
           0 \<le> q \<and> q \<le> 10 \<and> (u = m \<longrightarrow> q = 0) \<and> (u = M \<longrightarrow> q = 10)"
proof -
  define h :: real where "h = 1 / 2 ^ 1075"
  define D where "D = M - m"
  define s where "s = fl D"
  define x where "x = u - m"
  define d where "d = fl x"
  define c where "c = fl 10.99"
  define p where "p = fl (c * d)"
  define r where "r = p / s"
  define q where "q = fl r"
  have E1: "z - z / 1000000 - h \<le> fl z" and E2: "fl z \<le> z + z / 1000000 + h" if "0 \<le> z" for z
    unfolding h_def using fl_bounds [OF that] by blast+
  have h0: "0 < h" and h1: "h \<le> 1 / 1000000" by (simp_all add: h_def)
  have D0: "0 < D" using lo unfolding D_def
    by (rule less_le_trans [rotated]) simp
  have hD: "h \<le> D / 1000000"
  proof -
    have "h \<le> (1 / 2 ^ 1021) / 1000000" by (simp add: h_def)
    also have "\<dots> \<le> D / 1000000" using lo unfolding D_def by (simp add: divide_right_mono)
    finally show ?thesis .
  qed
  have Dhi: "D \<le> 2 ^ 1020" using hi by (simp add: D_def)
  have x0: "0 \<le> x" and xD: "x \<le> D" using mu uM by (simp_all add: x_def D_def)
  have s_lo: "D * (999998 / 1000000) \<le> s"
    using E1 [of D] D0 hD unfolding s_def by linarith
  have s_hi: "s \<le> D * (1000002 / 1000000)"
    using E2 [of D] D0 hD unfolding s_def by linarith
  have s0: "0 < s" using s_lo D0 by linarith
  have d0: "0 \<le> d" unfolding d_def using x0 by (rule fl_nonneg)
  have d_hi: "d \<le> D * (1000002 / 1000000)"
    using E2 [OF x0] xD hD unfolding d_def by linarith
  have c_lo: "(109899 / 10000) \<le> c"
    using E1 [of "10.99"] h1 unfolding c_def by simp
  have c_hi: "c \<le> (109901 / 10000)"
    using E2 [of "10.99"] h1 unfolding c_def by simp
  have cd0: "0 \<le> c * d" using c_lo d0 by simp
  have cd_hi: "c * d \<le> (109902 / 10000) * D"
  proof -
    have "c * d \<le> (109901 / 10000) * (D * (1000002 / 1000000))"
      using c_hi d_hi d0 c_lo by (intro mult_mono) simp_all
    also have "\<dots> \<le> (109902 / 10000) * D" using D0 by simp
    finally show ?thesis .
  qed
  have p0: "0 \<le> p" unfolding p_def using cd0 by (rule fl_nonneg)
  have p_hi: "p \<le> (109903 / 10000) * D"
    using E2 [OF cd0] cd_hi hD D0 unfolding p_def by linarith
  have r0: "0 \<le> r" unfolding r_def using p0 s0 by simp
  have r_hi: "r \<le> (109904 / 10000)"
  proof -
    have "p \<le> (109904 / 10000) * s" using p_hi s_lo D0 by linarith
    then show ?thesis unfolding r_def using s0 by (simp add: pos_divide_le_eq)
  qed
  have q0: "0 \<le> q" unfolding q_def using r0 by (rule fl_nonneg)
  have q_hi: "q \<le> (109905 / 10000)"
    using E2 [OF r0] r_hi h1 unfolding q_def by linarith
  have thr: "overflow_threshold = 2 ^ 1024 - 2 ^ 970" by (rule overflow_threshold_def)
  have ov_D: "\<bar>D\<bar> < overflow_threshold" using D0 Dhi unfolding thr by simp
  have ov_x: "\<bar>x\<bar> < overflow_threshold" using x0 xD Dhi unfolding thr by simp
  have ov_c: "\<bar>10.99 :: real\<bar> < overflow_threshold" unfolding thr by simp
  have ov_cd: "\<bar>c * d\<bar> < overflow_threshold"
    using cd0 cd_hi Dhi unfolding thr by simp
  have ov_r: "\<bar>r\<bar> < overflow_threshold" using r0 r_hi unfolding thr by simp
  have scale: "fround (M - m) = Fin s"
    using fround_Fin [OF ov_D] by (simp add: s_def D_def)
  have sub: "fround (u - m) = Fin d"
    using fround_Fin [OF ov_x] by (simp add: d_def x_def)
  have const: "fround (1099 / 100) = Fin c"
    using fround_Fin [OF ov_c] by (simp add: c_def)
  have mul: "fround (c * d) = Fin p"
    using fround_Fin [OF ov_cd] by (simp add: p_def)
  have quot: "fround (p / s) = Fin q"
    using fround_Fin [OF ov_r] by (simp add: q_def r_def)
  have run: "honEntry numpy m (fsub (Fin M) (Fin m)) u = Inr (Fin (of_int \<lfloor>q\<rfloor>))"
    using s0 by (simp add: honEntry_def fdiv_def scale sub const mul quot)
  have f0: "0 \<le> \<lfloor>q\<rfloor>" using q0 by simp
  have f10: "\<lfloor>q\<rfloor> \<le> 10" using q_hi by (simp add: floor_le_iff)
  have at_min: "\<lfloor>q\<rfloor> = 0" if "u = m"
  proof -
    from that have "x = 0" by (simp add: x_def)
    then have "d = 0" by (simp add: d_def fl_0)
    then have "p = 0" by (simp add: p_def fl_0)
    then have "q = 0" by (simp add: q_def r_def fl_0)
    then show ?thesis by simp
  qed
  have at_max: "\<lfloor>q\<rfloor> = 10" if "u = M"
  proof -
    from that have ds: "d = s" by (simp add: d_def s_def x_def D_def)
    have cs_lo: "(109899 / 10000) * s \<le> c * s" using c_lo s0 by simp
    have cs0: "0 \<le> c * s" using c_lo s0 by simp
    have cs_hi: "c * s \<le> (109901 / 10000) * s" using c_hi s0 by simp
    have "(109898 / 10000) * s \<le> p"
      using E1 [OF cs0] cs_lo cs_hi hD s_lo D0 unfolding p_def ds by linarith
    then have "(109898 / 10000) \<le> r" unfolding r_def using s0 by (simp add: pos_le_divide_eq)
    then have "10 \<le> q"
      using E1 [OF r0] r_hi h1 unfolding q_def by linarith
    then have "10 \<le> \<lfloor>q\<rfloor>" by (simp add: le_floor_iff)
    with f10 show ?thesis by linarith
  qed
  from run f0 f10 at_min at_max show ?thesis by blast
qed

subsection \<open>Random voters\<close>

lemma length_gauss_list: "length (fst (gauss_list n w)) = n"
  by (induction n arbitrary: w) (simp_all add: split_beta)

lemma rand_cls: "cls (fst (rand c ncand w)) = c"
  by (cases c)
     (simp_all add: Voter_rand_def PersonalityVoter_rand_def new_voter_def split_beta Let_def)

lemma rand_length: "length (utils (fst (rand c ncand w))) = nat ncand"
  by (cases c)
     (simp_all add: Voter_rand_def PersonalityVoter_rand_def new_voter_def split_beta Let_def
        length_gauss_list)

lemma rand_PersonalityVoter_attrs:
  "cluster (fst (rand PersonalityVoter ncand w)) = Some (cluster_count w) \<and>
   personality (fst (rand PersonalityVoter ncand w)) \<noteq> None"
proof -
  have "cluster_count (snd (gauss_list n w)) = cluster_count w" for n
    by (induction n arbitrary: w) (simp_all add: split_beta gauss_def)
  then show ?thesis
    by (simp add: Voter_rand_def PersonalityVoter_rand_def new_voter_def split_beta Let_def)
qed

subsection \<open>Blending two voters\<close>

lemma copyWithUtils_Voter:
  "cls self = Voter \<Longrightarrow> copyWithUtils self us = Inr (new_voter Voter us)"
  by (simp add: copyWithUtils_def Voter_copyWithUtils_def)

lemma copyWithUtils_PersonalityVoter:
  "cls self = PersonalityVoter \<Longrightarrow> copyWithUtils self us = Inl TypeError"
  by (simp add: copyWithUtils_def PersonalityVoter_copyWithUtils_def super_copyWithUtils_def)

lemma hybridWith_Voter:
  "length (utils self) = length (utils v2) \<Longrightarrow> cls self = Voter \<Longrightarrow>
   hybridWith self v2 w2 =
     Inr ((new_voter Voter
            (map (\<lambda>i. utils self ! i / sqrt (1 + w2 ^ 2) + w2 * utils v2 ! i / sqrt (1 + w2 ^ 2))
               [0..<length (utils self)]))\<lparr>np := True\<rparr>)"
  by (simp add: hybridWith_def copyWithUtils_Voter)

lemma hybridWith_length_mismatch:
  "length (utils self) \<noteq> length (utils v2) \<Longrightarrow> hybridWith self v2 w2 = Inl AssertionError"
  by (simp add: hybridWith_def)






text \<open>
  C4. A PersonalityVoter made by \<open>rand\<close> carries a cluster id and a personality, yet
  blending it never creates a voter: \<open>hybridWith\<close> with any voter of the same length, and
  \<open>mutantChild\<close>, end in the TypeError raised by the call in
  \<^verbatim>\<open>PersonalityVoter.copyWithUtils\<close>, before any attribute is copied.
\<close>

theorem PersonalityVoter_blend_fails:
  "cluster (fst (rand PersonalityVoter ncand w)) = Some (cluster_count w) \<and>
   personality (fst (rand PersonalityVoter ncand w)) \<noteq> None \<and>
   hybridWith (fst (rand PersonalityVoter ncand w)) (fst (rand vt ncand w')) w2 = Inl TypeError \<and>
   mutantChild (fst (rand PersonalityVoter ncand w)) muteWeight w' = Inl TypeError"
proof -
  let ?v = "fst (rand PersonalityVoter ncand w)"
  have c: "cls ?v = PersonalityVoter" by (rule rand_cls)
  have h: "hybridWith ?v x w2 = Inl TypeError" if "length (utils x) = nat ncand" for x w2
    using that c rand_length [of PersonalityVoter ncand w]
    by (simp add: hybridWith_def copyWithUtils_PersonalityVoter del: rand.simps)
  have "hybridWith ?v (fst (rand vt ncand w')) w2 = Inl TypeError"
    by (rule h) (rule rand_length)
  moreover have "mutantChild ?v muteWeight w' = Inl TypeError"
    using h [of "fst (rand PersonalityVoter (int (nat ncand)) w')" muteWeight] c
    by (simp add: mutantChild_def split_beta rand_length del: rand.simps)
  ultimately show ?thesis
    using rand_PersonalityVoter_attrs [of ncand w] by (simp del: rand.simps)
qed

subsection \<open>Frontrunners\<close>

lemma places_is_enumerate: "places info = enumerate 0 info"
  unfolding places_def by (rule sort_key_id_if_sorted) simp

lemma two_or_more: "2 \<le> length xs \<Longrightarrow> \<exists>a b r. xs = a # b # r"
  by (cases xs; cases "tl xs") auto

lemma frontrunners_first_two:
  assumes "2 \<le> length info"
  shows "frontrunners info = Inr (0, 1)"
proof -
  from assms obtain a b r where "info = a # b # r" using two_or_more by blast
  then show ?thesis by (simp add: frontrunners_def places_is_enumerate)
qed

lemma Mav_frontrunners_first_two:
  assumes "2 \<le> length info"
  shows "Mav_frontrunners info = Inr (0, 1, info ! 0, info ! 1)"
proof -
  from assms obtain a b r where "info = a # b # r" using two_or_more by blast
  then show ?thesis by (simp add: Mav_frontrunners_def places_is_enumerate)
qed

text \<open>
  C2. On the poll \<open>[1, 2, 3]\<close> the two highest-scoring candidates are 2 and 1, in that
  order, while \<open>stratBallotFor\<close> of Score and of Mav both take candidates 0 and 1: the
  sort key is the index \<^verbatim>\<open>x[0]\<close>, so \<open>places\<close> is the enumeration itself.
\<close>

theorem frontrunners_not_highest:
  "frontrunners [1, 2, 3 :: real] = Inr (0, 1) \<and>
   Mav_frontrunners [1, 2, 3 :: real] = Inr (0, 1, 1, 2) \<and>
   spec_frontrunners [1, 2, 3] = Inr (2, 1)"
  by (simp add: frontrunners_def Mav_frontrunners_def spec_frontrunners_def places_def
      enumerate_eq_zip upt_rec)

subsection \<open>The ballot memo and the one-sided ballot\<close>

lemma honBallot_voter: "honBallot cname v = Inr (b, v1) \<Longrightarrow> v1 = v"
  by (auto simp: honBallot_def Let_def split: sum.splits)

lemma Score_honBallot_memo:
  "Score_honBallot cname v = Inr (h, v1) \<Longrightarrow>
   ballots v1 = (ballots v)(cname @ ''_hon'' \<mapsto> h) \<and> flags v1 = flags v \<and> utils v1 = utils v"
  by (auto simp: Score_honBallot_def rememberBallot_def split: sum.splits dest!: honBallot_voter)

lemma stratBallot_memo:
  "rememberBallot ''stratBallot'' (stratBallot front) cname v = Inr (s, v2) \<Longrightarrow>
   ballots v2 = (ballots v)(cname @ ''_strat'' \<mapsto> s) \<and> utils v2 = utils v"
  by (auto simp: rememberBallot_def stratBallot_def Let_def split: sum.splits if_splits)

lemma rememberBallot_stores:
  "rememberBallot fun_name f cname u = Inr (b, u') \<Longrightarrow>
   ballots u' (cname @ ''_'' @ take (length fun_name - 6) fun_name) = Some b"
  by (auto simp: rememberBallot_def split: sum.splits)

lemma ossBallot_cases:
  "ossBallot cname v =
     (if flags v (cname @ ''_isStrat'') = Some True
      then (case ballots v (cname @ ''_strat'') of None \<Rightarrow> Inl AttributeError | Some s \<Rightarrow> Inr s)
      else (case ballots v (cname @ ''_hon'') of None \<Rightarrow> Inl AttributeError | Some h \<Rightarrow> Inr h))"
  by (auto simp: ossBallot_def getattr_def split: option.splits)

lemma Score_honBallot_0_1:
  "Score_honBallot ''Score'' (new_voter Voter [0, 1]) =
     Inr ([Fin 0, Fin 10], (new_voter Voter [0, 1])\<lparr>ballots := [''Score_hon'' \<mapsto> [Fin 0, Fin 10]]\<rparr>)"
  by (simp add: Score_honBallot_def rememberBallot_def honBallot_def honEntry_def fdiv_def
      fround_def overflow_threshold_def fl_def ulp_def round_half_even_def Let_def
      py_min_def py_max_def new_voter_def)

text \<open>
  C5 (as stated). A voter for whom only the honest ballot was computed, and no strategic
  one: the one-sided ballot is returned, the call does not fail.
\<close>

theorem ossBallot_without_strat:
  "Score_honBallot ''Score'' (new_voter Voter [0, 1]) =
     Inr ([Fin 0, Fin 10],
          (new_voter Voter [0, 1])\<lparr>ballots := [''Score_hon'' \<mapsto> [Fin 0, Fin 10]]\<rparr>) \<and>
   ballots ((new_voter Voter [0, 1])\<lparr>ballots := [''Score_hon'' \<mapsto> [Fin 0, Fin 10]]\<rparr>)
     ''Score_strat'' = None \<and>
   ossBallot ''Score''
     ((new_voter Voter [0, 1])\<lparr>ballots := [''Score_hon'' \<mapsto> [Fin 0, Fin 10]]\<rparr>)
     = Inr [Fin 0, Fin 10]"
  by (simp add: Score_honBallot_0_1) (simp add: new_voter_def ossBallot_def getattr_def)

lemma stratBallot_flag:
  assumes "rememberBallot ''stratBallot'' (stratBallot front) cname v = Inr (s, v2)"
  shows "fst front < length (utils v) \<and> snd front < length (utils v) \<and>
         flags v2 =
           (if utils v ! fst front = utils v ! snd front then flags v
            else (flags v)(cname @ ''_isStrat'' \<mapsto> utils v ! fst front < utils v ! snd front))"
  using assms
  by (auto simp: rememberBallot_def stratBallot_def getitem_def Let_def
      split: sum.splits if_splits)

text \<open>
  With Score, after the honest and then the strategic ballot of a voter were computed,
  the flag is True exactly when the voter prefers the second frontrunner, and the
  one-sided ballot is the strategic one then and the honest one otherwise.
\<close>

lemma Score_ossBallot_after_both:
  assumes "Score_honBallot cname v = Inr (h, v1)"
    and "rememberBallot ''stratBallot'' (stratBallot front) cname v1 = Inr (s, v2)"
  shows "ossBallot cname v2 =
           Inr (if flags v2 (cname @ ''_isStrat'') = Some True then s else h) \<and>
         (utils v ! fst front < utils v ! snd front \<longrightarrow> ossBallot cname v2 = Inr s) \<and>
         (utils v ! fst front > utils v ! snd front \<longrightarrow> ossBallot cname v2 = Inr h)"
proof -
  from assms(1) have b1: "ballots v1 = (ballots v)(cname @ ''_hon'' \<mapsto> h)"
    and u1: "utils v1 = utils v"
    by (simp_all add: Score_honBallot_memo)
  from assms(2) have b2: "ballots v2 = (ballots v1)(cname @ ''_strat'' \<mapsto> s)"
    by (simp add: stratBallot_memo)
  have sel: "ossBallot cname v2 =
      Inr (if flags v2 (cname @ ''_isStrat'') = Some True then s else h)"
    by (simp add: ossBallot_cases b1 b2)
  have fl: "flags v2 =
           (if utils v ! fst front = utils v ! snd front then flags v1
            else (flags v1)(cname @ ''_isStrat'' \<mapsto> utils v ! fst front < utils v ! snd front))"
    using stratBallot_flag [OF assms(2)] by (simp add: u1)
  have "utils v ! fst front < utils v ! snd front \<longrightarrow> ossBallot cname v2 = Inr s"
    by (simp add: sel fl)
  moreover have "utils v ! fst front > utils v ! snd front \<longrightarrow> ossBallot cname v2 = Inr h"
    by (simp add: sel fl)
  ultimately show ?thesis using sel by blast
qed

text \<open>
  C5 (amended). For every method name and every voter that carries both memoized
  ballots, \<^verbatim>\<open><Method>_hon\<close> and \<^verbatim>\<open><Method>_strat\<close>, \<open>ossBallot\<close> returns the
  strategic ballot when the attribute \<^verbatim>\<open><Method>_isStrat\<close> is True and the honest
  ballot otherwise, also when the flag was never set. On any voter the call fails exactly
  when the one ballot it selects is not memoized, and then with AttributeError. The two
  attributes are what \<open>rememberBallot\<close> stores whenever a decorated \<^verbatim>\<open>honBallot\<close> or
  \<^verbatim>\<open>stratBallot\<close>, of any method, returns a ballot.
\<close>

theorem ossBallot_memoized:
  assumes "ballots v (cname @ ''_hon'') = Some h"
    and "ballots v (cname @ ''_strat'') = Some s"
  shows "ossBallot cname v =
           Inr (if flags v (cname @ ''_isStrat'') = Some True then s else h) \<and>
         (\<forall>u. (\<exists>e. ossBallot cname u = Inl e) =
               (if flags u (cname @ ''_isStrat'') = Some True
                then ballots u (cname @ ''_strat'') = None
                else ballots u (cname @ ''_hon'') = None)) \<and>
         (\<forall>u e. ossBallot cname u = Inl e \<longrightarrow> e = AttributeError) \<and>
         (\<forall>f u b u'. rememberBallot ''honBallot'' f cname u = Inr (b, u') \<longrightarrow>
            ballots u' (cname @ ''_hon'') = Some b) \<and>
         (\<forall>f u b u'. rememberBallot ''stratBallot'' f cname u = Inr (b, u') \<longrightarrow>
            ballots u' (cname @ ''_strat'') = Some b)"
proof -
  have sel: "ossBallot cname v =
      Inr (if flags v (cname @ ''_isStrat'') = Some True then s else h)"
    by (simp add: ossBallot_cases assms)
  have fails: "(\<exists>e. ossBallot cname u = Inl e) =
               (if flags u (cname @ ''_isStrat'') = Some True
                then ballots u (cname @ ''_strat'') = None
                else ballots u (cname @ ''_hon'') = None)" for u
    by (simp add: ossBallot_cases split: option.splits)
  have kind: "ossBallot cname u = Inl e \<longrightarrow> e = AttributeError" for u e
    by (simp add: ossBallot_cases split: option.splits)
  have hon: "rememberBallot ''honBallot'' f cname u = Inr (b, u') \<longrightarrow>
            ballots u' (cname @ ''_hon'') = Some b" for f u b u'
    using rememberBallot_stores [of "''honBallot''" f cname u b u'] by simp
  have strat: "rememberBallot ''stratBallot'' f cname u = Inr (b, u') \<longrightarrow>
            ballots u' (cname @ ''_strat'') = Some b" for f u b u'
    using rememberBallot_stores [of "''stratBallot''" f cname u b u'] by simp
  from sel fails kind hon strat show ?thesis by blast
qed

theorem ossBallot_memoized_witness:
  "ossBallot ''Mav''
       ((new_voter Voter [0, 1, 1 / 2])
            \<lparr>ballots := [''Mav_hon'' \<mapsto> [Fin 0, Fin 4, Fin 2], ''Mav_strat'' \<mapsto> [Fin 0, Fin 4, Fin 4]],
             flags := [''Mav_isStrat'' \<mapsto> True]\<rparr>) = Inr [Fin 0, Fin 4, Fin 4] \<and>
   ossBallot ''Mav''
       ((new_voter Voter [0, 1, 1 / 2])
            \<lparr>ballots := [''Mav_hon'' \<mapsto> [Fin 0, Fin 4, Fin 2], ''Mav_strat'' \<mapsto> [Fin 0, Fin 4, Fin 4]],
             flags := [''Mav_isStrat'' \<mapsto> False]\<rparr>) = Inr [Fin 0, Fin 4, Fin 2]"
proof -
  let ?b = "[''Mav_hon'' \<mapsto> [Fin 0, Fin 4, Fin 2], ''Mav_strat'' \<mapsto> [Fin 0, Fin 4, Fin 4]]"
  let ?v = "\<lambda>flag. (new_voter Voter [0, 1, 1 / 2])
                \<lparr>ballots := ?b, flags := [''Mav_isStrat'' \<mapsto> flag]\<rparr>"
  have h: "ballots (?v flag) (''Mav'' @ ''_hon'') = Some [Fin 0, Fin 4, Fin 2]"
    and s: "ballots (?v flag) (''Mav'' @ ''_strat'') = Some [Fin 0, Fin 4, Fin 4]" for flag
    by (simp_all add: new_voter_def)
  from ossBallot_memoized [OF h s, of True] ossBallot_memoized [OF h s, of False]
  show ?thesis by (simp add: new_voter_def)
qed

text \<open>
  C10. A voter whose honest ballot is memoized, who is not flagged from an earlier
  election, and whose utilities for the two frontrunners are equal: the strategic ballot
  is the all-or-nothing ballot (10 for every candidate at or above that utility, 0 for
  the others), the flag is left as it was, and the one-sided ballot that follows is the
  memoized honest ballot.
\<close>

theorem tied_frontrunners_oss_honest:
  assumes "fst front < length (utils v)" and "snd front < length (utils v)"
    and "utils v ! fst front = utils v ! snd front"
    and "ballots v (cname @ ''_hon'') = Some h"
    and "flags v (cname @ ''_isStrat'') \<noteq> Some True"
  shows "\<exists>v2. rememberBallot ''stratBallot'' (stratBallot front) cname v =
                Inr (map (\<lambda>util. if util \<ge> utils v ! fst front then Fin 10 else Fin 0)
                       (utils v), v2) \<and>
              flags v2 = flags v \<and>
              ballots v2 (cname @ ''_strat'') =
                Some (map (\<lambda>util. if util \<ge> utils v ! fst front then Fin 10 else Fin 0)
                        (utils v)) \<and>
              ossBallot cname v2 = Inr h"
  using assms
  by (simp add: rememberBallot_def stratBallot_def getitem_def ossBallot_cases)

theorem tied_frontrunners_oss_honest_witness:
  "\<exists>v2. rememberBallot ''stratBallot'' (stratBallot (0, 1)) ''Score''
           ((new_voter Voter [1, 1, 0, 2])
              \<lparr>ballots := [''Score_hon'' \<mapsto> [Fin 5, Fin 5, Fin 0, Fin 10]]\<rparr>) =
           Inr ([Fin 10, Fin 10, Fin 0, Fin 10], v2) \<and>
         flags v2 ''Score_isStrat'' = None \<and>
         ballots v2 ''Score_strat'' = Some [Fin 10, Fin 10, Fin 0, Fin 10] \<and>
         ossBallot ''Score'' v2 = Inr [Fin 5, Fin 5, Fin 0, Fin 10]"
  using tied_frontrunners_oss_honest
    [of "(0, 1)"
        "(new_voter Voter [1, 1, 0, 2])
           \<lparr>ballots := [''Score_hon'' \<mapsto> [Fin 5, Fin 5, Fin 0, Fin 10]]\<rparr>"
        "''Score''" "[Fin 5, Fin 5, Fin 0, Fin 10]"]
  by (auto simp: new_voter_def)

text \<open>
  The flag is never cleared: were it True on entry, it would stay True and the one-sided
  ballot would be the all-or-nothing ballot. The program cannot reach that state for a
  tied voter of the same method: \<open>frontrunners\<close> always gives candidates 0 and 1, so
  whether the two utilities are tied is the same in every election the voter takes part in.
\<close>

lemma stale_flag_keeps_strategic:
  assumes "fst front < length (utils v)" and "snd front < length (utils v)"
    and "utils v ! fst front = utils v ! snd front"
    and "flags v (cname @ ''_isStrat'') = Some True"
  shows "\<exists>s v2. rememberBallot ''stratBallot'' (stratBallot front) cname v = Inr (s, v2) \<and>
           ossBallot cname v2 = Inr s"
  using assms
  by (simp add: rememberBallot_def stratBallot_def getitem_def ossBallot_cases)

subsection \<open>The honest ballot of score voting\<close>

lemma py_min_Min: "xs \<noteq> [] \<Longrightarrow> py_min xs = Inr (Min (set xs))"
  by (cases xs) (simp_all add: py_min_def Min.set_eq_fold [symmetric])

lemma py_max_Max: "xs \<noteq> [] \<Longrightarrow> py_max xs = Inr (Max (set xs))"
  by (cases xs) (simp_all add: py_max_def Max.set_eq_fold [symmetric])

lemma honEntries_total:
  "\<forall>u \<in> set us. \<exists>x. honEntry numpy b s u = Inr x \<Longrightarrow> \<exists>xs. honEntries numpy b s us = Inr xs"
  by (induction us) auto

lemma honEntries_nth:
  "honEntries numpy b s us = Inr xs \<Longrightarrow>
   length xs = length us \<and> (\<forall>i < length us. honEntry numpy b s (us ! i) = Inr (xs ! i))"
proof (induction us arbitrary: xs)
  case Nil
  then show ?case by simp
next
  case (Cons u us)
  then show ?case
    by (auto split: sum.splits simp: nth_Cons split: nat.splits)
qed

lemma Score_honBallot_run:
  assumes "utils v \<noteq> []"
    and "honEntries (np v) (Min (set (utils v)))
           (fsub (Fin (Max (set (utils v)))) (Fin (Min (set (utils v))))) (utils v) = r"
  shows "Score_honBallot cname v =
           (case r of Inl e \<Rightarrow> Inl e
            | Inr bal \<Rightarrow> Inr (bal, v\<lparr>ballots := (ballots v)(cname @ ''_hon'' \<mapsto> bal)\<rparr>))"
  using assms
  by (simp add: Score_honBallot_def rememberBallot_def honBallot_def py_min_Min py_max_Max
      split: sum.splits)

lemma honEntry_zero_scale:
  "honEntry numpy c (fsub (Fin c) (Fin c)) c = (if numpy then Inr NaN else Inl ZeroDivisionError)"
  by (simp add: honEntry_def fdiv_def fround_def overflow_threshold_def fl_0)

lemma honEntries_zero_scale:
  "honEntries numpy c (fsub (Fin c) (Fin c)) (replicate (Suc n) c) =
     (if numpy then Inr (replicate (Suc n) NaN) else Inl ZeroDivisionError)"
proof (induction n)
  case 0
  show ?case using honEntry_zero_scale [of numpy c] by (simp del: fsub.simps)
next
  case (Suc n)
  have "honEntries numpy c (fsub (Fin c) (Fin c)) (replicate (Suc (Suc n)) c) =
        (case honEntry numpy c (fsub (Fin c) (Fin c)) c of
           Inl e \<Rightarrow> Inl e
         | Inr x \<Rightarrow>
             (case honEntries numpy c (fsub (Fin c) (Fin c)) (replicate (Suc n) c) of
                Inl e \<Rightarrow> Inl e
              | Inr xs \<Rightarrow> Inr (x # xs)))"
    by (simp only: replicate.simps honEntries.simps)
  then show ?case by (simp only: Suc honEntry_zero_scale) simp
qed

text \<open>
  C9 (as stated). A voter whose utilities are all equal has scale 0: with Python numbers
  as utilities the division raises ZeroDivisionError and no ballot is produced.
\<close>

theorem Score_honBallot_constant_voter:
  "Score_honBallot ''Score'' (new_voter Voter [1, 1]) = Inl ZeroDivisionError"
  by (simp add: Score_honBallot_def rememberBallot_def honBallot_def honEntry_def fdiv_def
      fround_def overflow_threshold_def fl_0 py_min_def py_max_def new_voter_def)

text \<open>
  So it is for every voter whose utilities are all equal, when they are Python numbers.
  With \<^verbatim>\<open>numpy.float64\<close> utilities, which every blended voter has, the same division
  gives nan: the ballot is returned and memoized, and no entry of it lies in \<open>[0, 10]\<close>.
\<close>

lemma constant_voter_honBallot:
  assumes "utils v = replicate (Suc n) c"
  shows "Score_honBallot cname v =
           (if np v
            then Inr (replicate (Suc n) NaN,
                      v\<lparr>ballots := (ballots v)(cname @ ''_hon'' \<mapsto> replicate (Suc n) NaN)\<rparr>)
            else Inl ZeroDivisionError)"
proof -
  have ne: "utils v \<noteq> []" by (simp add: assms)
  have "set (utils v) = {c}" by (simp only: assms set_replicate_Suc)
  then have m: "Min (set (utils v)) = c" and M: "Max (set (utils v)) = c" by simp_all
  have "honEntries (np v) (Min (set (utils v)))
           (fsub (Fin (Max (set (utils v)))) (Fin (Min (set (utils v))))) (utils v) =
        (if np v then Inr (replicate (Suc n) NaN) else Inl ZeroDivisionError)"
    unfolding m M by (simp only: assms honEntries_zero_scale)
  from Score_honBallot_run [OF ne this, of cname] show ?thesis by simp
qed

lemma constant_voter_numpy_example:
  "Score_honBallot ''Score'' ((new_voter Voter [1, 1])\<lparr>np := True\<rparr>) =
     Inr ([NaN, NaN],
          (new_voter Voter [1, 1])\<lparr>np := True, ballots := [''Score_hon'' \<mapsto> [NaN, NaN]]\<rparr>)"
  by (simp add: Score_honBallot_def rememberBallot_def honBallot_def honEntry_def fdiv_def
      fround_def overflow_threshold_def fl_0 py_min_def py_max_def new_voter_def)

text \<open>
  At the two ends of the range of the doubles an entry can leave \<open>[0, 10]\<close> although the
  utilities differ: the quotient of two subnormal numbers rounds to 11, and a product
  beyond the largest double is an infinity.
\<close>

lemma Score_honBallot_subnormal:
  "Score_honBallot ''Score'' (new_voter Voter [0, 1 / 2 ^ 1074]) =
     Inr ([Fin 0, Fin 11],
          (new_voter Voter [0, 1 / 2 ^ 1074])\<lparr>ballots := [''Score_hon'' \<mapsto> [Fin 0, Fin 11]]\<rparr>)"
  by (simp add: Score_honBallot_def rememberBallot_def honBallot_def honEntry_def fdiv_def
      fround_def overflow_threshold_def fl_def ulp_def round_half_even_def Let_def
      py_min_def py_max_def new_voter_def)

lemma Score_honBallot_huge:
  "Score_honBallot ''Score'' (new_voter Voter [0, 2 ^ 1023]) =
     Inr ([Fin 0, PosInf],
          (new_voter Voter [0, 2 ^ 1023])\<lparr>ballots := [''Score_hon'' \<mapsto> [Fin 0, PosInf]]\<rparr>)"
  by (simp add: Score_honBallot_def rememberBallot_def honBallot_def honEntry_def fdiv_def
      fround_def overflow_threshold_def fl_def ulp_def round_half_even_def Let_def signed_inf_def
      py_min_def py_max_def new_voter_def)

text \<open>
  C9 (amended). For every voter whose largest and smallest utility differ by at least
  \<open>2^-1021\<close> and at most \<open>2^1020\<close>, the honest ballot of Score is returned and memoized;
  it has one entry per candidate, the value of
  \<^verbatim>\<open>floor(10.99 * (util - min) / (max - min))\<close> in doubles, with the voter's own
  minimum and maximum utility. Every entry is an integer from 0 to 10, a candidate at the
  minimum gets 0 and a candidate at the maximum gets 10.
\<close>

theorem Score_honBallot_scale:
  assumes ne: "utils v \<noteq> []"
    and lo: "1 / 2 ^ 1021 \<le> Max (set (utils v)) - Min (set (utils v))"
    and hi: "Max (set (utils v)) - Min (set (utils v)) \<le> 2 ^ 1020"
  shows "\<exists>bal v1. Score_honBallot cname v = Inr (bal, v1) \<and>
           length bal = length (utils v) \<and>
           ballots v1 (cname @ ''_hon'') = Some bal \<and>
           (\<forall>i < length (utils v).
              honEntry (np v) (Min (set (utils v)))
                (fsub (Fin (Max (set (utils v)))) (Fin (Min (set (utils v))))) (utils v ! i) =
                Inr (bal ! i) \<and>
              (\<exists>q. bal ! i = Fin (of_int q) \<and> 0 \<le> q \<and> q \<le> 10 \<and>
                 (utils v ! i = Min (set (utils v)) \<longrightarrow> q = 0) \<and>
                 (utils v ! i = Max (set (utils v)) \<longrightarrow> q = 10)))"
proof -
  let ?m = "Min (set (utils v))" and ?M = "Max (set (utils v))"
  let ?s = "fsub (Fin ?M) (Fin ?m)"
  have bounds: "?m \<le> u \<and> u \<le> ?M" if "u \<in> set (utils v)" for u
    using that by simp
  have entry: "\<exists>q. honEntry (np v) ?m ?s u = Inr (Fin (of_int q)) \<and>
           0 \<le> q \<and> q \<le> 10 \<and> (u = ?m \<longrightarrow> q = 0) \<and> (u = ?M \<longrightarrow> q = 10)"
    if "u \<in> set (utils v)" for u
    using bounds [OF that] lo hi by (intro honEntry_bounds) simp_all
  then have "\<forall>u \<in> set (utils v). \<exists>x. honEntry (np v) ?m ?s u = Inr x" by blast
  from honEntries_total [OF this] obtain bal
    where bal: "honEntries (np v) ?m ?s (utils v) = Inr bal" by blast
  from honEntries_nth [OF bal]
  have len: "length bal = length (utils v)"
    and nth: "\<forall>i < length (utils v). honEntry (np v) ?m ?s (utils v ! i) = Inr (bal ! i)"
    by simp_all
  have run: "Score_honBallot cname v =
      Inr (bal, v\<lparr>ballots := (ballots v)(cname @ ''_hon'' \<mapsto> bal)\<rparr>)"
    using Score_honBallot_run [OF ne bal, of cname] by simp
  have entries: "honEntry (np v) ?m ?s (utils v ! i) = Inr (bal ! i) \<and>
      (\<exists>q. bal ! i = Fin (of_int q) \<and> 0 \<le> q \<and> q \<le> 10 \<and>
         (utils v ! i = ?m \<longrightarrow> q = 0) \<and> (utils v ! i = ?M \<longrightarrow> q = 10))"
    if "i < length (utils v)" for i
  proof -
    from that have "utils v ! i \<in> set (utils v)" by simp
    from entry [OF this] nth that show ?thesis by auto
  qed
  from run len entries show ?thesis by simp
qed

theorem Score_honBallot_scale_witness:
  "\<exists>bal v1. Score_honBallot ''Score'' (new_voter Voter [3, 1, 2]) = Inr (bal, v1) \<and>
     length bal = 3 \<and> bal ! 0 = Fin 10 \<and> bal ! 1 = Fin 0 \<and>
     (\<exists>q. bal ! 2 = Fin (of_int q) \<and> 0 \<le> q \<and> q \<le> 10)"
proof -
  let ?v = "new_voter Voter [3, 1, 2]"
  have u: "utils ?v = [3, 1, 2]" by (simp add: new_voter_def)
  have ne: "utils ?v \<noteq> []" by (simp add: u)
  have lo: "1 / 2 ^ 1021 \<le> Max (set (utils ?v)) - Min (set (utils ?v))" by (simp add: u)
  have hi: "Max (set (utils ?v)) - Min (set (utils ?v)) \<le> 2 ^ 1020" by (simp add: u)
  from Score_honBallot_scale [OF ne lo hi, of "''Score''"]
  obtain bal v1 where r: "Score_honBallot ''Score'' ?v = Inr (bal, v1)"
    "length bal = length (utils ?v)"
    "\<forall>i < length (utils ?v).
       honEntry (np ?v) (Min (set (utils ?v)))
         (fsub (Fin (Max (set (utils ?v)))) (Fin (Min (set (utils ?v))))) (utils ?v ! i) =
         Inr (bal ! i) \<and>
       (\<exists>q. bal ! i = Fin (of_int q) \<and> 0 \<le> q \<and> q \<le> 10 \<and>
          (utils ?v ! i = Min (set (utils ?v)) \<longrightarrow> q = 0) \<and>
          (utils ?v ! i = Max (set (utils ?v)) \<longrightarrow> q = 10))"
    by blast
  have i0: "0 < length (utils ?v)" and i1: "1 < length (utils ?v)"
    and i2: "2 < length (utils ?v)"
    by (simp_all add: u)
  from r(3) [rule_format, OF i0] have b0: "bal ! 0 = Fin 10" by (auto simp: u)
  from r(3) [rule_format, OF i1] have b1: "bal ! 1 = Fin 0" by (auto simp: u)
  from r(3) [rule_format, OF i2]
  have b2: "\<exists>q. bal ! 2 = Fin (of_int q) \<and> 0 \<le> q \<and> q \<le> 10" by (auto simp: u)
  from r(1,2) b0 b1 b2 show ?thesis by (simp add: u)
qed

subsection \<open>The winner\<close>

lemma set_winners: "set (winners res m) = {i. i < length res \<and> res ! i = m}"
  by (auto simp: winners_def in_set_enumerate_eq image_iff)

lemma distinct_winners: "distinct (winners res m)"
  unfolding winners_def by (rule distinct_map_filter) simp

lemma winners_filter: "winners res m = filter (\<lambda>i. res ! i = m) [0..<length res]"
proof -
  have "map fst (filter (\<lambda>(cand, score). score = m) (zip [0..<length res] res)) =
        filter (\<lambda>i. res ! i = m) [0..<length res]"
  proof (induction res rule: rev_induct)
    case Nil
    show ?case by simp
  next
    case (snoc x xs)
    have "filter (\<lambda>i. (xs @ [x]) ! i = m) [0..<length xs] =
          filter (\<lambda>i. xs ! i = m) [0..<length xs]"
      by (rule filter_cong) (simp_all add: nth_append)
    with snoc show ?case by simp
  qed
  then show ?thesis by (simp add: winners_def enumerate_eq_zip)
qed

lemma sorted_winners: "sorted (winners res m)"
  unfolding winners_filter by (rule sorted_wrt_filter) simp

lemma winners_nonempty: "res \<noteq> [] \<Longrightarrow> winners res (Max (set res)) \<noteq> []"
proof -
  assume "res \<noteq> []"
  then have "Max (set res) \<in> set res" by simp
  then obtain i where "i < length res" "res ! i = Max (set res)"
    by (auto simp: in_set_conv_nth)
  then have "i \<in> set (winners res (Max (set res)))" by (simp add: set_winners)
  then show ?thesis by auto
qed

lemma winner_run:
  assumes "res \<noteq> []"
  shows "winner res w =
     Inr (winners res (Max (set res)) !
            (raw_src w (raw_n w) mod length (winners res (Max (set res)))),
          w\<lparr>raw_n := Suc (raw_n w)\<rparr>)"
  using assms winners_nonempty [OF assms]
  by (simp add: winner_def py_max_Max choice_def)

lemma winner_empty: "winner [] w = Inl ValueError"
  by (simp add: winner_def py_max_def)

text \<open>
  C6. For a non-empty results vector, \<open>winner\<close> returns an index whose score is the
  maximum; if one index alone has the maximum it is returned; every index with the
  maximum is returned for some random draw; there is one list, the tied indices in
  increasing order and without repetition, in which every call picks the position its
  random draw gives, reduced modulo the number of tied indices, so that the uniform draw
  of \<^verbatim>\<open>random.choice\<close> is a uniform choice among exactly the tied indices; and
  \<^verbatim>\<open>winner([1,2,3,2,-100])\<close> is 2.
\<close>

theorem winner_maximum:
  assumes "res \<noteq> []"
  shows "(\<exists>cand w1. winner res w = Inr (cand, w1) \<and> cand < length res \<and>
            res ! cand = Max (set res)) \<and>
         (\<forall>i < length res. (\<forall>j < length res. (res ! j = Max (set res)) = (j = i)) \<longrightarrow>
            (\<exists>w1. winner res w = Inr (i, w1))) \<and>
         (\<forall>i < length res. res ! i = Max (set res) \<longrightarrow>
            (\<exists>k w1. winner res (w\<lparr>raw_src := (\<lambda>_. k)\<rparr>) = Inr (i, w1))) \<and>
         (\<exists>tied. distinct tied \<and> sorted tied \<and>
            set tied = {i. i < length res \<and> res ! i = Max (set res)} \<and> tied \<noteq> [] \<and>
            (\<forall>w'. winner res w' =
               Inr (tied ! (raw_src w' (raw_n w') mod length tied),
                    w'\<lparr>raw_n := Suc (raw_n w')\<rparr>))) \<and>
         winner [1, 2, 3, 2, -100] w = Inr (2, w\<lparr>raw_n := Suc (raw_n w)\<rparr>)"
proof -
  let ?m = "Max (set res)"
  let ?ws = "winners res ?m"
  have ne: "?ws \<noteq> []" by (rule winners_nonempty [OF assms])
  have run: "winner res w' =
      Inr (?ws ! (raw_src w' (raw_n w') mod length ?ws), w'\<lparr>raw_n := Suc (raw_n w')\<rparr>)" for w'
    by (rule winner_run [OF assms])
  have pick: "?ws ! (k mod length ?ws) \<in> set ?ws" for k
    using ne by simp
  have p1: "\<exists>cand w1. winner res w = Inr (cand, w1) \<and> cand < length res \<and> res ! cand = ?m"
    using pick [of "raw_src w (raw_n w)"] by (simp add: run set_winners)
  have p2: "\<exists>w1. winner res w = Inr (i, w1)"
    if "i < length res" and "\<forall>j < length res. (res ! j = ?m) = (j = i)" for i
  proof -
    from that have "set ?ws = {i}" by (auto simp: set_winners)
    with pick [of "raw_src w (raw_n w)"] have "?ws ! (raw_src w (raw_n w) mod length ?ws) = i"
      by simp
    then show ?thesis by (simp add: run)
  qed
  have p3: "\<exists>k w1. winner res (w\<lparr>raw_src := (\<lambda>_. k)\<rparr>) = Inr (i, w1)"
    if "i < length res" and "res ! i = ?m" for i
  proof -
    from that have "i \<in> set ?ws" by (simp add: set_winners)
    then obtain k where "k < length ?ws" "?ws ! k = i" by (auto simp: in_set_conv_nth)
    then show ?thesis by (auto simp: run intro!: exI [of _ k])
  qed
  have p4: "\<exists>tied. distinct tied \<and> sorted tied \<and>
            set tied = {i. i < length res \<and> res ! i = ?m} \<and> tied \<noteq> [] \<and>
            (\<forall>w'. winner res w' =
               Inr (tied ! (raw_src w' (raw_n w') mod length tied),
                    w'\<lparr>raw_n := Suc (raw_n w')\<rparr>))"
    using ne distinct_winners [of res ?m] sorted_winners [of res ?m] set_winners [of res ?m] run
    by blast
  have p5: "winner [1, 2, 3, 2, -100] w = Inr (2, w\<lparr>raw_n := Suc (raw_n w)\<rparr>)"
    by (simp add: winner_def py_max_def winners_def choice_def enumerate_eq_zip upt_rec)
  from p1 p2 p3 p4 p5 show ?thesis by blast
qed

theorem winner_maximum_witness:
  "\<exists>cand w1. winner [1, 2, 1, 3, 3, 3, 2, 1, 2] (const_world 0 7) = Inr (cand, w1) \<and>
     cand < length [1, 2, 1, 3, 3, 3, 2, 1, 2 :: real] \<and>
     [1, 2, 1, 3, 3, 3, 2, 1, 2 :: real] ! cand = 3"
proof -
  have ne: "[1, 2, 1, 3, 3, 3, 2, 1, 2 :: real] \<noteq> []" by simp
  have m: "Max (set [1, 2, 1, 3, 3, 3, 2, 1, 2 :: real]) = 3" by simp
  from winner_maximum [OF ne, of "const_world 0 7"]
  have "\<exists>cand w1. winner [1, 2, 1, 3, 3, 3, 2, 1, 2] (const_world 0 7) = Inr (cand, w1) \<and>
     cand < length [1, 2, 1, 3, 3, 3, 2, 1, 2 :: real] \<and>
     [1, 2, 1, 3, 3, 3, 2, 1, 2 :: real] ! cand = Max (set [1, 2, 1, 3, 3, 3, 2, 1, 2 :: real])"
    by (rule conjunct1)
  then show ?thesis by (simp only: m)
qed

lemma winner_tied_example:
  "winner [1, 2, 1, 3, 3, 3, 2, 1, 2] (const_world 0 0) = Inr (3, (const_world 0 0)\<lparr>raw_n := 1\<rparr>) \<and>
   winner [1, 2, 1, 3, 3, 3, 2, 1, 2] (const_world 0 1) = Inr (4, (const_world 0 1)\<lparr>raw_n := 1\<rparr>) \<and>
   winner [1, 2, 1, 3, 3, 3, 2, 1, 2] (const_world 0 2) = Inr (5, (const_world 0 2)\<lparr>raw_n := 1\<rparr>)"
  by (simp add: winner_def py_max_def winners_def choice_def enumerate_eq_zip upt_rec
      const_world_def)

subsection \<open>The satisfaction measure\<close>

lemma results_name_unbound: "''results'' \<notin> set (vseOn_locals @ module_names)"
  by (simp add: vseOn_locals_def module_names_def)

lemma vseOn_raises: "\<exists>e. vseOn cname voters = Inl e"
  by (simp add: vseOn_def Let_def split: sum.splits prod.splits)

lemma Score_honBallot_3_0:
  "Score_honBallot ''Score'' (new_voter Voter [3, 0]) =
     Inr ([Fin 10, Fin 0], (new_voter Voter [3, 0])\<lparr>ballots := [''Score_hon'' \<mapsto> [Fin 10, Fin 0]]\<rparr>)"
  by (simp add: Score_honBallot_def rememberBallot_def honBallot_def honEntry_def fdiv_def
      fround_def overflow_threshold_def fl_def ulp_def round_half_even_def Let_def
      py_min_def py_max_def new_voter_def)

lemma Score_honBallot_2_0:
  "Score_honBallot ''Score'' (new_voter Voter [2, 0]) =
     Inr ([Fin 10, Fin 0], (new_voter Voter [2, 0])\<lparr>ballots := [''Score_hon'' \<mapsto> [Fin 10, Fin 0]]\<rparr>)"
  by (simp add: Score_honBallot_def rememberBallot_def honBallot_def honEntry_def fdiv_def
      fround_def overflow_threshold_def fl_def ulp_def round_half_even_def Let_def
      py_min_def py_max_def new_voter_def)

lemma results_example:
  "results [[Fin 0, Fin 10], [Fin 10, Fin 0], [Fin 10, Fin 0]] = [Fin (20 / 3), Fin (10 / 3)]"
  by (simp add: results_def zip_star_def Score_candScore_def mean_def upt_rec)

lemma example_hon:
  "resultsFor ''Score''
     [new_voter Voter [0, 1], new_voter Voter [3, 0], new_voter Voter [2, 0]] Score_honBallot =
   Inr ([Fin (20 / 3), Fin (10 / 3)],
        [(new_voter Voter [0, 1])\<lparr>ballots := [''Score_hon'' \<mapsto> [Fin 0, Fin 10]]\<rparr>,
         (new_voter Voter [3, 0])\<lparr>ballots := [''Score_hon'' \<mapsto> [Fin 10, Fin 0]]\<rparr>,
         (new_voter Voter [2, 0])\<lparr>ballots := [''Score_hon'' \<mapsto> [Fin 10, Fin 0]]\<rparr>])"
  by (simp add: resultsFor_def Score_honBallot_0_1 Score_honBallot_3_0 Score_honBallot_2_0
      results_example)

lemma example_strat:
  "resultsFor ''Score''
     [(new_voter Voter [0, 1])\<lparr>ballots := [''Score_hon'' \<mapsto> [Fin 0, Fin 10]]\<rparr>,
      (new_voter Voter [3, 0])\<lparr>ballots := [''Score_hon'' \<mapsto> [Fin 10, Fin 0]]\<rparr>,
      (new_voter Voter [2, 0])\<lparr>ballots := [''Score_hon'' \<mapsto> [Fin 10, Fin 0]]\<rparr>]
     (rememberBallot ''stratBallot'' (stratBallot (0, 1))) =
   Inr ([Fin (20 / 3), Fin (10 / 3)],
        [(new_voter Voter [0, 1])
           \<lparr>ballots := [''Score_hon'' \<mapsto> [Fin 0, Fin 10], ''Score_strat'' \<mapsto> [Fin 0, Fin 10]],
            flags := [''Score_isStrat'' \<mapsto> True]\<rparr>,
         (new_voter Voter [3, 0])
           \<lparr>ballots := [''Score_hon'' \<mapsto> [Fin 10, Fin 0], ''Score_strat'' \<mapsto> [Fin 10, Fin 0]],
            flags := [''Score_isStrat'' \<mapsto> False]\<rparr>,
         (new_voter Voter [2, 0])
           \<lparr>ballots := [''Score_hon'' \<mapsto> [Fin 10, Fin 0], ''Score_strat'' \<mapsto> [Fin 10, Fin 0]],
            flags := [''Score_isStrat'' \<mapsto> False]\<rparr>])"
  by (simp add: resultsFor_def rememberBallot_def stratBallot_def getitem_def new_voter_def
      stratEntry_def py_min2_def py_max2_def fdiv_def fround_def overflow_threshold_def
      fl_def ulp_def round_half_even_def Let_def results_example)

lemma example_oss:
  "resultsFor ''Score''
        [(new_voter Voter [0, 1])
           \<lparr>ballots := [''Score_hon'' \<mapsto> [Fin 0, Fin 10], ''Score_strat'' \<mapsto> [Fin 0, Fin 10]],
            flags := [''Score_isStrat'' \<mapsto> True]\<rparr>,
         (new_voter Voter [3, 0])
           \<lparr>ballots := [''Score_hon'' \<mapsto> [Fin 10, Fin 0], ''Score_strat'' \<mapsto> [Fin 10, Fin 0]],
            flags := [''Score_isStrat'' \<mapsto> False]\<rparr>,
         (new_voter Voter [2, 0])
           \<lparr>ballots := [''Score_hon'' \<mapsto> [Fin 10, Fin 0], ''Score_strat'' \<mapsto> [Fin 10, Fin 0]],
            flags := [''Score_isStrat'' \<mapsto> False]\<rparr>]
     Score_ossBallot =
   Inr ([Fin (20 / 3), Fin (10 / 3)],
        [(new_voter Voter [0, 1])
           \<lparr>ballots := [''Score_hon'' \<mapsto> [Fin 0, Fin 10], ''Score_strat'' \<mapsto> [Fin 0, Fin 10]],
            flags := [''Score_isStrat'' \<mapsto> True]\<rparr>,
         (new_voter Voter [3, 0])
           \<lparr>ballots := [''Score_hon'' \<mapsto> [Fin 10, Fin 0], ''Score_strat'' \<mapsto> [Fin 10, Fin 0]],
            flags := [''Score_isStrat'' \<mapsto> False]\<rparr>,
         (new_voter Voter [2, 0])
           \<lparr>ballots := [''Score_hon'' \<mapsto> [Fin 10, Fin 0], ''Score_strat'' \<mapsto> [Fin 10, Fin 0]],
            flags := [''Score_isStrat'' \<mapsto> False]\<rparr>])"
  by (simp add: resultsFor_def Score_ossBallot_def ossBallot_def getattr_def new_voter_def
      results_example)

lemma frontrunners_example: "frontrunners [Fin (20 / 3), Fin (10 / 3)] = Inr (0, 1)"
  by (simp add: frontrunners_first_two)

lemma multiResults_example:
  "\<exists>vs. multiResults ''Score''
          [new_voter Voter [0, 1], new_voter Voter [3, 0], new_voter Voter [2, 0]] (\<lambda>x. x) =
        Inr (([Fin (20 / 3), Fin (10 / 3)], [Fin (20 / 3), Fin (10 / 3)],
              [Fin (20 / 3), Fin (10 / 3)]), vs) \<and>
        socUtils vs = [5 / 3, 1 / 3]"
proof -
  let ?vs = "[(new_voter Voter [0, 1])
           \<lparr>ballots := [''Score_hon'' \<mapsto> [Fin 0, Fin 10], ''Score_strat'' \<mapsto> [Fin 0, Fin 10]],
            flags := [''Score_isStrat'' \<mapsto> True]\<rparr>,
         (new_voter Voter [3, 0])
           \<lparr>ballots := [''Score_hon'' \<mapsto> [Fin 10, Fin 0], ''Score_strat'' \<mapsto> [Fin 10, Fin 0]],
            flags := [''Score_isStrat'' \<mapsto> False]\<rparr>,
         (new_voter Voter [2, 0])
           \<lparr>ballots := [''Score_hon'' \<mapsto> [Fin 10, Fin 0], ''Score_strat'' \<mapsto> [Fin 10, Fin 0]],
            flags := [''Score_isStrat'' \<mapsto> False]\<rparr>]"
  have "multiResults ''Score''
          [new_voter Voter [0, 1], new_voter Voter [3, 0], new_voter Voter [2, 0]] (\<lambda>x. x) =
        Inr (([Fin (20 / 3), Fin (10 / 3)], [Fin (20 / 3), Fin (10 / 3)],
              [Fin (20 / 3), Fin (10 / 3)]), ?vs)"
    unfolding multiResults_def
    by (simp only: example_hon sum.case prod.case Score_stratBallotFor_def
        frontrunners_example example_strat example_oss)
  moreover have "socUtils ?vs = [5 / 3, 1 / 3]"
    by (simp add: socUtils_def zip_star_def mean_def new_voter_def upt_rec)
  ultimately show ?thesis by blast
qed

text \<open>
  C1. \<open>vseOn\<close> never returns a value: on every electorate it ends in an exception. On
  the electorate \<open>[(0, 1), (3, 0), (2, 0)]\<close> with Score, \<open>multiResults\<close> succeeds with
  candidate 0 the winner of all three result sets, the social utilities are
  \<open>[5/3, 1/3]\<close> with mean 1, so each of the three values the function is meant to
  return is \<open>(5/3 - 1) / (5/3 - 1) = 1\<close>; the call raises NameError, because the
  generator iterates over \<^verbatim>\<open>results\<close>, a name bound nowhere, instead of
  \<^verbatim>\<open>multiResults\<close>.
\<close>

theorem vseOn_never_returns:
  "(\<exists>e. vseOn cname voters = Inl e) \<and>
   (\<exists>vs. multiResults ''Score''
          [new_voter Voter [0, 1], new_voter Voter [3, 0], new_voter Voter [2, 0]] (\<lambda>x. x) =
        Inr (([Fin (20 / 3), Fin (10 / 3)], [Fin (20 / 3), Fin (10 / 3)],
              [Fin (20 / 3), Fin (10 / 3)]), vs) \<and>
        socUtils vs = [5 / 3, 1 / 3]) \<and>
   vseOn ''Score'' [new_voter Voter [0, 1], new_voter Voter [3, 0], new_voter Voter [2, 0]] =
     Inl NameError"
proof (intro conjI)
  show "\<exists>e. vseOn cname voters = Inl e" by (rule vseOn_raises)
next
  show "\<exists>vs. multiResults ''Score''
          [new_voter Voter [0, 1], new_voter Voter [3, 0], new_voter Voter [2, 0]] (\<lambda>x. x) =
        Inr (([Fin (20 / 3), Fin (10 / 3)], [Fin (20 / 3), Fin (10 / 3)],
              [Fin (20 / 3), Fin (10 / 3)]), vs) \<and>
        socUtils vs = [5 / 3, 1 / 3]"
    by (rule multiResults_example)
next
  from multiResults_example obtain vs where
    m: "multiResults ''Score''
          [new_voter Voter [0, 1], new_voter Voter [3, 0], new_voter Voter [2, 0]] (\<lambda>x. x) =
          Inr (([Fin (20 / 3), Fin (10 / 3)], [Fin (20 / 3), Fin (10 / 3)],
              [Fin (20 / 3), Fin (10 / 3)]), vs)"
    and s: "socUtils vs = [5 / 3, 1 / 3]"
    by blast
  have mx: "py_max [5 / 3, 1 / 3] = Inr (5 / 3)" by (simp add: py_max_def)
  show "vseOn ''Score'' [new_voter Voter [0, 1], new_voter Voter [3, 0], new_voter Voter [2, 0]] =
     Inl NameError"
    unfolding vseOn_def m using results_name_unbound by (simp add: s mx Let_def)
qed

subsection \<open>The mirrored-polarization model\<close>

lemma hybrid_negation_zero:
  assumes "cls a = Voter" and "utils b = map (\<lambda>q. - q) (utils a)"
  shows "hybridWith a b 1 =
           Inr ((new_voter Voter (replicate (length (utils a)) 0))\<lparr>np := True\<rparr>)"
proof -
  have len: "length (utils a) = length (utils b)" using assms(2) by simp
  have "map (\<lambda>i. utils a ! i / sqrt (1 + 1 ^ 2) + 1 * utils b ! i / sqrt (1 + 1 ^ 2))
          [0..<length (utils a)] =
        map (\<lambda>i. 0) [0..<length (utils a)]"
    by (rule map_cong) (simp_all add: assms(2))
  also have "\<dots> = replicate (length (utils a)) 0" by (simp add: map_replicate_const)
  finally show ?thesis using hybridWith_Voter [OF len assms(1), of 1] by simp
qed

lemma ReverseModel_odd:
  "odd nvot \<Longrightarrow> model_call ReverseModel nvot ncand vt w = Inl ValueError"
  by (simp add: ReverseModel_call_def odd_iff_mod_2_eq_one)

text \<open>
  C8. For an even voter count \<open>nvot \<ge> 0\<close> and any candidate count, ReverseModel (with
  the default voter class) draws one base voter and returns \<open>nvot div 2\<close> copies of it
  followed by \<open>nvot div 2\<close> copies of its negation, \<open>nvot\<close> voters in all; blending any
  member of the first camp with any member of the second at weight 1 gives the voter
  whose utilities are all 0 (as \<^verbatim>\<open>numpy.float64\<close> values, like every blend).
\<close>

theorem ReverseModel_camps:
  assumes "0 \<le> nvot" and "even nvot"
  shows "\<exists>base neg w1.
           rand Voter ncand w = (base, w1) \<and>
           utils neg = map (\<lambda>q. - q) (utils base) \<and>
           model_call ReverseModel nvot ncand Voter w =
             Inr (replicate (nat (nvot div 2)) base @ replicate (nat (nvot div 2)) neg, w1) \<and>
           int (length (replicate (nat (nvot div 2)) base @ replicate (nat (nvot div 2)) neg))
             = nvot \<and>
           (\<forall>a \<in> set (replicate (nat (nvot div 2)) base).
              \<forall>b \<in> set (replicate (nat (nvot div 2)) neg).
                hybridWith a b 1 =
                  Inr ((new_voter Voter (replicate (nat ncand) 0))\<lparr>np := True\<rparr>))"
proof -
  obtain base w1 where r: "rand Voter ncand w = (base, w1)" by (cases "rand Voter ncand w")
  let ?neg = "new_voter Voter (map (\<lambda>q. - q) (utils base))"
  from r have c: "cls base = Voter" and l: "length (utils base) = nat ncand"
    using rand_cls [of Voter ncand w] rand_length [of Voter ncand w] by simp_all
  have n: "utils ?neg = map (\<lambda>q. - q) (utils base)" by (simp add: new_voter_def)
  have run: "model_call ReverseModel nvot ncand Voter w =
      Inr (replicate (nat (nvot div 2)) base @ replicate (nat (nvot div 2)) ?neg, w1)"
    using assms(2) r by (simp add: ReverseModel_call_def del: rand.simps)
  have size: "int (length (replicate (nat (nvot div 2)) base @
                 replicate (nat (nvot div 2)) ?neg)) = nvot"
    using assms by (simp add: nat_add_distrib [symmetric])
  have zero: "hybridWith base ?neg 1 =
      Inr ((new_voter Voter (replicate (nat ncand) 0))\<lparr>np := True\<rparr>)"
    using hybrid_negation_zero [OF c n] by (simp add: l)
  show ?thesis
    using r n run size zero by (intro exI [of _ base] exI [of _ ?neg] exI [of _ w1]) auto
qed

theorem ReverseModel_camps_witness:
  "\<exists>el w1. model_call ReverseModel 4 3 Voter (const_world 1 0) = Inr (el, w1) \<and>
     length el = 4 \<and>
     hybridWith (el ! 0) (el ! 3) 1 = Inr ((new_voter Voter [0, 0, 0])\<lparr>np := True\<rparr>)"
proof -
  have a: "(0::int) \<le> 4" and b: "even (4::int)" by simp_all
  from ReverseModel_camps [OF a b, of 3 "const_world 1 0"]
  obtain base neg w1 where
    run: "model_call ReverseModel 4 3 Voter (const_world 1 0) =
            Inr (replicate (nat (4 div 2)) base @ replicate (nat (4 div 2)) neg, w1)"
    and z: "\<forall>a \<in> set (replicate (nat (4 div 2)) base).
              \<forall>b \<in> set (replicate (nat (4 div 2)) neg).
                hybridWith a b 1 =
                  Inr ((new_voter Voter (replicate (nat 3) 0))\<lparr>np := True\<rparr>)"
    by blast
  have el: "replicate (nat (4 div 2)) base @ replicate (nat (4 div 2)) neg =
      [base, base, neg, neg]"
    by (simp add: numeral_2_eq_2)
  from z have "hybridWith base neg 1 = Inr ((new_voter Voter [0, 0, 0])\<lparr>np := True\<rparr>)"
    unfolding el by (simp add: numeral_3_eq_3)
  with run [unfolded el] show ?thesis
    by (simp add: numeral_3_eq_3 del: model_call.simps)
qed

subsection \<open>The reinforcing-urn model\<close>

lemma mutantChild_Voter:
  assumes "cls v = Voter"
  shows "\<exists>child w1. mutantChild v mf w = Inr (child, w1) \<and> cls child = Voter"
proof -
  obtain r w1 where r: "rand Voter (int (length (utils v))) w = (r, w1)"
    by (cases "rand Voter (int (length (utils v))) w")
  then have "length (utils v) = length (utils r)"
    using rand_length [of Voter "int (length (utils v))" w] by simp
  from hybridWith_Voter [OF this assms, of mf] r assms show ?thesis
    by (simp add: mutantChild_def new_voter_def del: rand.simps)
qed

lemma polya_loop_done:
  "\<not> int (length election) < nvot \<Longrightarrow>
   polya_loop alpha mf nvot ncand vt election w = Inr (election, w)"
  by simp

lemma polya_loop_step:
  assumes "int (length election) < nvot" and "0 < int (length election) + alpha"
    and "\<forall>v \<in> set election. cls v = Voter"
  shows "\<exists>x w1. cls x = Voter \<and>
           polya_loop alpha mf nvot ncand Voter election w =
           polya_loop alpha mf nvot ncand Voter (election @ [x]) w1"
proof -
  let ?i = "int (raw_src w (raw_n w)) mod (int (length election) + alpha)"
  let ?w1 = "w\<lparr>raw_n := Suc (raw_n w)\<rparr>"
  have rr: "randrange (int (length election) + alpha) w = Inr (?i, ?w1)"
    using assms(2) by (simp add: randrange_def)
  have nonneg: "0 \<le> ?i" using assms(2) by simp
  show ?thesis
  proof (cases "?i < int (length election)")
    case True
    with nonneg have "election ! nat ?i \<in> set election" by simp
    with assms(3) have "cls (election ! nat ?i) = Voter" by blast
    from mutantChild_Voter [OF this, of mf ?w1] obtain child w2
      where m: "mutantChild (election ! nat ?i) mf ?w1 = Inr (child, w2)" "cls child = Voter"
      by blast
    have "polya_loop alpha mf nvot ncand Voter election w =
          polya_loop alpha mf nvot ncand Voter (election @ [child]) w2"
      by (subst polya_loop.simps) (simp add: assms(1) rr True m(1) del: polya_loop.simps)
    with m(2) show ?thesis by blast
  next
    case False
    obtain v w2 where r: "rand Voter ncand ?w1 = (v, w2)" by (cases "rand Voter ncand ?w1")
    then have c: "cls v = Voter" using rand_cls [of Voter ncand ?w1] by simp
    have "polya_loop alpha mf nvot ncand Voter election w =
          polya_loop alpha mf nvot ncand Voter (election @ [v]) w2"
      by (subst polya_loop.simps)
         (simp add: assms(1) rr False r del: polya_loop.simps rand.simps)
    with c show ?thesis by blast
  qed
qed

lemma polya_loop_size:
  assumes "0 < alpha" and "\<forall>v \<in> set election. cls v = Voter"
  shows "\<exists>el w1. polya_loop alpha mf nvot ncand Voter election w = Inr (el, w1) \<and>
           int (length el) = max (int (length election)) nvot \<and>
           take (length election) el = election \<and> (\<forall>v \<in> set el. cls v = Voter)"
  using assms(2)
proof (induction "nat (nvot - int (length election))" arbitrary: election w)
  case 0
  then have "\<not> int (length election) < nvot" by simp
  with 0 show ?case by (simp add: polya_loop_done max_def del: polya_loop.simps)
next
  case (Suc n)
  then have lt: "int (length election) < nvot" by simp
  from assms(1) have pos: "0 < int (length election) + alpha" by simp
  from polya_loop_step [OF lt pos Suc.prems, of mf ncand w] obtain x w1
    where x: "cls x = Voter"
      and st: "polya_loop alpha mf nvot ncand Voter election w =
               polya_loop alpha mf nvot ncand Voter (election @ [x]) w1"
    by blast
  have n: "n = nat (nvot - int (length (election @ [x])))" using Suc.hyps(2) by simp
  have all: "\<forall>v \<in> set (election @ [x]). cls v = Voter" using Suc.prems x by simp
  from Suc.hyps(1) [OF n all, of w1] obtain el w2
    where r: "polya_loop alpha mf nvot ncand Voter (election @ [x]) w1 = Inr (el, w2)"
      and len: "int (length el) = max (int (length (election @ [x]))) nvot"
      and tk: "take (length (election @ [x])) el = election @ [x]"
      and cl: "\<forall>v \<in> set el. cls v = Voter"
    by blast
  have "take (length election) el = take (length election) (take (length (election @ [x])) el)"
    by (simp add: min_def)
  also have "\<dots> = election" by (simp only: tk) simp
  finally have tk': "take (length election) el = election" .
  from len lt have len': "int (length el) = max (int (length election)) nvot" by simp
  from st r len' tk' cl show ?case by (simp del: polya_loop.simps)
qed

lemma polya_loop_raises:
  assumes "int (length election) < nvot" and "\<not> 0 < int (length election) + alpha"
  shows "polya_loop alpha mf nvot ncand vt election w = Inl ValueError"
  using assms by (subst polya_loop.simps) (simp add: randrange_def del: polya_loop.simps)

lemma polya_loop_cls:
  assumes "polya_loop alpha mf nvot ncand Voter election w = Inr (el, w1)"
    and "\<forall>v \<in> set election. cls v = Voter"
  shows "\<forall>v \<in> set el. cls v = Voter"
  using assms
proof (induction "nat (nvot - int (length election))" arbitrary: election w)
  case 0
  then have "\<not> int (length election) < nvot" by simp
  with 0 show ?case by (simp add: polya_loop_done del: polya_loop.simps)
next
  case (Suc n)
  then have lt: "int (length election) < nvot" by simp
  show ?case
  proof (cases "0 < int (length election) + alpha")
    case False
    from polya_loop_raises [OF lt False, of mf ncand Voter w] Suc.prems(1)
    show ?thesis by simp
  next
    case True
    from polya_loop_step [OF lt True Suc.prems(2), of mf ncand w] obtain x w2
      where x: "cls x = Voter"
        and st: "polya_loop alpha mf nvot ncand Voter election w =
                 polya_loop alpha mf nvot ncand Voter (election @ [x]) w2"
      by blast
    have n: "n = nat (nvot - int (length (election @ [x])))" using Suc.hyps(2) by simp
    have all: "\<forall>v \<in> set (election @ [x]). cls v = Voter" using Suc.prems(2) x by simp
    from Suc.prems(1) st
    have "polya_loop alpha mf nvot ncand Voter (election @ [x]) w2 = Inr (el, w1)" by simp
    from Suc.hyps(1) [OF n this all] show ?thesis .
  qed
qed

lemma rand_list_cls: "\<forall>v \<in> set (fst (rand_list n vt ncand w)). cls v = vt"
proof (induction n arbitrary: w)
  case 0
  show ?case by simp
next
  case (Suc n)
  obtain v w1 where r: "rand vt ncand w = (v, w1)" by (cases "rand vt ncand w")
  then have "cls v = vt" using rand_cls [of vt ncand w] by simp
  with Suc [of w1] r show ?case by (simp add: split_beta del: rand.simps)
qed

lemma hybridWith_cls: "cls v = Voter \<Longrightarrow> hybridWith v q qw = Inr h \<Longrightarrow> cls h = Voter"
  by (auto simp: hybridWith_def copyWithUtils_Voter new_voter_def split: if_splits)

lemma hybrid_all_cls:
  "\<forall>v \<in> set vs. cls v = Voter \<Longrightarrow> hybrid_all vs q qw = Inr hs \<Longrightarrow>
   \<forall>h \<in> set hs. cls h = Voter"
proof (induction vs arbitrary: hs)
  case Nil
  then show ?case by simp
next
  case (Cons v vs)
  then show ?case
    by (auto split: sum.splits dest: hybridWith_cls)
qed

lemma model_call_cls:
  "model_call m nvot ncand Voter w = Inr (el, w1) \<Longrightarrow> \<forall>v \<in> set el. cls v = Voter"
proof (induction m arbitrary: nvot w el w1)
  case RandomModel
  then show ?case
    using rand_list_cls [of "nat nvot" Voter ncand w] by (auto simp: RandomModel_call_def)
next
  case ReverseModel
  obtain base w2 where r: "rand Voter ncand w = (base, w2)" by (cases "rand Voter ncand w")
  then have "cls base = Voter" using rand_cls [of Voter ncand w] by simp
  with ReverseModel r show ?case
    by (auto simp: ReverseModel_call_def new_voter_def split: if_splits simp del: rand.simps)
next
  case (QModel qWeight baseModel)
  obtain q w2 where r: "rand Voter ncand w = (q, w2)" by (cases "rand Voter ncand w")
  from QModel.prems r obtain base w3 where
    b: "model_call baseModel nvot ncand Voter w2 = Inr (base, w3)"
    and h: "hybrid_all base q qWeight = Inr el"
    by (auto split: sum.splits simp del: rand.simps)
  from QModel.IH [OF b] have "\<forall>v \<in> set base. cls v = Voter" .
  from hybrid_all_cls [OF this h] show ?case .
next
  case (PolyaModel seedVoters alpha seedModel mutantFactor)
  from PolyaModel.prems obtain seed w2 where
    s: "model_call seedModel seedVoters ncand Voter w = Inr (seed, w2)"
    and l: "polya_loop alpha mutantFactor nvot ncand Voter seed w2 = Inr (el, w1)"
    by (auto split: sum.splits simp del: polya_loop.simps)
  from PolyaModel.IH [OF s] have "\<forall>v \<in> set seed. cls v = Voter" .
  from polya_loop_cls [OF l this] show ?case .
qed

lemma rand_list_length: "length (fst (rand_list n vt ncand w)) = n"
  by (induction n arbitrary: w) (simp_all add: split_beta del: rand.simps)

lemma hybrid_all_length: "hybrid_all vs q qw = Inr hs \<Longrightarrow> length hs = length vs"
  by (induction vs arbitrary: hs) (auto split: sum.splits)

text \<open>
  C7 (as stated). \<^verbatim>\<open>PolyaModel()(1, 3)\<close>, every parameter at its default
  (\<^verbatim>\<open>seedVoters=2, alpha=1, seedModel=QModel(1, ReverseModel()), mutantFactor=0.2\<close>):
  the urn starts with the two seed voters, the loop body never runs, and the electorate
  returned has 2 voters where 1 was requested.
\<close>

theorem PolyaModel_seed_exceeds:
  "\<exists>el w1. model_call (PolyaModel 2 1 (QModel 1 ReverseModel) 0.2) 1 3 Voter (const_world 1 0) =
             Inr (el, w1) \<and> length el = 2 \<and> \<not> int (length el) \<le> 1"
proof -
  obtain q w1 where q: "rand Voter 3 (const_world 1 0) = (q, w1)"
    by (cases "rand Voter 3 (const_world 1 0)")
  obtain base w2 where b: "rand Voter 3 w1 = (base, w2)" by (cases "rand Voter 3 w1")
  let ?neg = "new_voter Voter (map (\<lambda>q. - q) (utils base))"
  have cb: "cls base = Voter" and lb: "length (utils base) = 3"
    using b rand_cls [of Voter 3 w1] rand_length [of Voter 3 w1] by simp_all
  have lq: "length (utils q) = 3"
    using q rand_length [of Voter 3 "const_world 1 0"] by simp
  have rev: "model_call ReverseModel 2 3 Voter w1 = Inr ([base, ?neg], w2)"
    using b by (simp add: ReverseModel_call_def del: rand.simps)
  obtain h1 where h1: "hybridWith base q 1 = Inr h1"
    using hybridWith_Voter [of base q 1] cb lb lq by simp
  obtain h2 where h2: "hybridWith ?neg q 1 = Inr h2"
    using hybridWith_Voter [of ?neg q 1] lb lq by (simp add: new_voter_def)
  have seed: "model_call (QModel 1 ReverseModel) 2 3 Voter (const_world 1 0) =
      Inr ([h1, h2], w2)"
    using q rev h1 h2 by (simp del: rand.simps model_call.simps(2) add: model_call.simps(3))
  have "model_call (PolyaModel 2 1 (QModel 1 ReverseModel) 0.2) 1 3 Voter (const_world 1 0) =
      Inr ([h1, h2], w2)"
    by (simp only: model_call.simps(4) seed sum.case prod.case) (simp add: polya_loop_done)
  then show ?thesis by simp
qed

text \<open>
  C7 (amended). With the default voter class and a positive \<open>alpha\<close>, whenever the seed
  model returns a seed electorate the reinforcing-urn model returns: every iteration of
  its loop appends exactly one voter, the seed voters stay at the front, and the final
  size is the larger of the seed electorate's size and \<open>nvot\<close>; it is \<open>nvot\<close> exactly
  when the seed electorate has at most \<open>nvot\<close> voters.
\<close>

theorem PolyaModel_size:
  assumes "0 < alpha"
    and "model_call seedModel seedVoters ncand Voter w = Inr (seed, w1)"
  shows "\<exists>el w2. model_call (PolyaModel seedVoters alpha seedModel mf) nvot ncand Voter w =
                    Inr (el, w2) \<and>
           int (length el) = max (int (length seed)) nvot \<and>
           take (length seed) el = seed \<and>
           (int (length seed) \<le> nvot \<longrightarrow> int (length el) = nvot) \<and>
           (\<forall>election w'. (\<forall>v \<in> set election. cls v = Voter) \<and> int (length election) < nvot \<longrightarrow>
              (\<exists>x w''. polya_loop alpha mf nvot ncand Voter election w' =
                        polya_loop alpha mf nvot ncand Voter (election @ [x]) w''))"
proof -
  from model_call_cls [OF assms(2)] have all: "\<forall>v \<in> set seed. cls v = Voter" .
  from polya_loop_size [OF assms(1) all, of mf nvot ncand w1] obtain el w2
    where r: "polya_loop alpha mf nvot ncand Voter seed w1 = Inr (el, w2)"
      and len: "int (length el) = max (int (length seed)) nvot"
      and tk: "take (length seed) el = seed"
    by blast
  have run: "model_call (PolyaModel seedVoters alpha seedModel mf) nvot ncand Voter w =
      Inr (el, w2)"
    by (simp only: model_call.simps(4) assms(2) sum.case prod.case r)
  have step: "\<exists>x w''. polya_loop alpha mf nvot ncand Voter election w' =
                       polya_loop alpha mf nvot ncand Voter (election @ [x]) w''"
    if "\<forall>v \<in> set election. cls v = Voter" and "int (length election) < nvot"
    for election w'
  proof -
    from assms(1) have "0 < int (length election) + alpha" by simp
    from polya_loop_step [OF that(2) this that(1), of mf ncand w'] show ?thesis by blast
  qed
  from len have "int (length seed) \<le> nvot \<longrightarrow> int (length el) = nvot" by simp
  with run len tk step show ?thesis by blast
qed

theorem PolyaModel_size_witness:
  "\<exists>el w2. model_call (PolyaModel 2 1 RandomModel 0.2) 4 1 Voter (const_world 1 0) =
             Inr (el, w2) \<and> length el = 4"
proof -
  obtain seed w1 where p: "rand_list (nat 2) Voter 1 (const_world 1 0) = (seed, w1)"
    by (cases "rand_list (nat 2) Voter 1 (const_world 1 0)")
  then have s: "model_call RandomModel 2 1 Voter (const_world 1 0) = Inr (seed, w1)"
    by (simp add: RandomModel_call_def)
  have l: "length seed = 2"
    using p rand_list_length [of "nat 2" Voter 1 "const_world 1 0"] by simp
  have a: "(0::int) < 1" by simp
  from PolyaModel_size [OF a s, of "0.2" 4] obtain el w2
    where "model_call (PolyaModel 2 1 RandomModel 0.2) 4 1 Voter (const_world 1 0) =
             Inr (el, w2)"
      and "int (length el) = max (int (length seed)) 4"
    by blast
  with l show ?thesis by (simp del: model_call.simps)
qed

end
